theory Spec2Isabelle
  imports Complex_Main "HOL-Library.Multiset" "HOL-Library.Sublist" "HOL-Library.Monad_Syntax"
begin

section \<open>Beam search for Token-and-Duration Transducers\<close>

text \<open>
  A shallow embedding of \<^verbatim>\<open>BeamTDTInfer\<close>
  (\<^verbatim>\<open>nemo/collections/asr/parts/submodules/tdt_beam_decoding.py\<close>).

  Conventions of the embedding.
  \<^item> Python floats (scores, log-probabilities) are real numbers; rounding, infinities and
    NaN are outside the model.
  \<^item> Token ids, duration values, duration indices and frame indices are natural numbers;
    time stamps are integers (the sentinel time stamp is \<open>-1\<close>).
  \<^item> A call that raises is the value \<open>None\<close> (or \<open>Inl e\<close> where the kind of the
    exception matters).
  \<^item> The prediction network, the joint network followed by the two log-softmaxes, and
    the N-gram model are parameters of the search functions; the decoder's cache and its
    batched state buffer are one abstract value threaded through the calls.
\<close>

subsection \<open>Hypotheses\<close>

text \<open>
  The fields of \<^verbatim>\<open>Hypothesis\<close> that the decoder reads or writes. \<open>'s\<close> is the
  prediction network's state, \<open>'o\<close> one prediction network output, \<open>'l\<close> a language
  model state.
\<close>

record ('s, 'o, 'l) hypothesis =
  score :: real
  y_sequence :: "nat list"
  dec_state :: 's
  dec_out :: "'o list"
  timestep :: "int list"
  length_frames :: nat
  last_frame :: nat
  ngram_lm_state :: "'l option"

text \<open>\<^verbatim>\<open>sorted(xs, key=lambda x: x.score, reverse=True)\<close>: Python's sort is stable, also
  with \<^verbatim>\<open>reverse=True\<close>; so is \<^const>\<open>sort_key\<close>.\<close>

definition sorted_by_score_desc ::
  "('s, 'o, 'l) hypothesis list \<Rightarrow> ('s, 'o, 'l) hypothesis list" where
  "sorted_by_score_desc hs = sort_key (\<lambda>h. - score h) hs"

definition sorted_by_score ::
  "('s, 'o, 'l) hypothesis list \<Rightarrow> ('s, 'o, 'l) hypothesis list" where
  "sorted_by_score hs = sort_key score hs"

subsection \<open>Duplicate suppression\<close>

text \<open>The test of the inner loop of \<^verbatim>\<open>remove_duplicate_hypotheses\<close>.\<close>

definition same_key :: "('s, 'o, 'l) hypothesis \<Rightarrow> ('s, 'o, 'l) hypothesis \<Rightarrow> bool" where
  "same_key kept_hyp hyp \<longleftrightarrow>
     y_sequence kept_hyp = y_sequence hyp \<and> last_frame kept_hyp = last_frame hyp"

text \<open>One iteration of the outer loop: \<open>hyp\<close> is appended unless a kept hypothesis has
  its token sequence and last frame.\<close>

definition keep_if_new ::
  "('s, 'o, 'l) hypothesis list \<Rightarrow> ('s, 'o, 'l) hypothesis \<Rightarrow> ('s, 'o, 'l) hypothesis list" where
  "keep_if_new kept_hyps hyp =
     (if list_ex (\<lambda>kept_hyp. same_key kept_hyp hyp) kept_hyps then kept_hyps
      else kept_hyps @ [hyp])"

definition remove_duplicate_hypotheses ::
  "('s, 'o, 'l) hypothesis list \<Rightarrow> ('s, 'o, 'l) hypothesis list" where
  "remove_duplicate_hypotheses hypotheses =
     foldl keep_if_new [] (sorted_by_score_desc hypotheses)"

text \<open>The key under which two hypotheses are duplicates.\<close>

definition hyp_key :: "('s, 'o, 'l) hypothesis \<Rightarrow> nat list \<times> nat" where
  "hyp_key h = (y_sequence h, last_frame h)"

subsection \<open>Python and tensor primitives\<close>

text \<open>\<^verbatim>\<open>xs[i]\<close> for a non-negative index: out of range raises.\<close>

definition nth_opt :: "'a list \<Rightarrow> nat \<Rightarrow> 'a option" where
  "nth_opt xs i = (if i < length xs then Some (xs ! i) else None)"

text \<open>\<^verbatim>\<open>xs[-1]\<close>: raises on the empty list.\<close>

definition last_opt :: "'a list \<Rightarrow> 'a option" where
  "last_opt xs = (if xs = [] then None else Some (last xs))"

text \<open>\<^verbatim>\<open>xs[:k]\<close>: a negative bound counts from the end.\<close>

definition py_take :: "int \<Rightarrow> 'a list \<Rightarrow> 'a list" where
  "py_take k xs = (if 0 \<le> k then take (nat k) xs else take (length xs - nat (- k)) xs)"

text \<open>\<^verbatim>\<open>max(xs, key=f)\<close>: the first element with the greatest key; raises on the empty
  list.\<close>

fun max_by :: "('a \<Rightarrow> real) \<Rightarrow> 'a list \<Rightarrow> 'a option" where
  "max_by f [] = None"
| "max_by f (x # xs) = Some (foldl (\<lambda>best y. if f best < f y then y else best) x xs)"

text \<open>
  \<^verbatim>\<open>values, indices = x.topk(k)\<close> on a one-dimensional tensor: the \<open>k\<close> greatest
  entries in descending order and their positions; raises when \<open>k\<close> is negative or
  exceeds the length. Among equal values the lower position comes first here (PyTorch
  leaves that order open).
\<close>

definition topk :: "int \<Rightarrow> real list \<Rightarrow> (real list \<times> nat list) option" where
  "topk k xs =
     (if k < 0 \<or> int (length xs) < k then None
      else let ps = take (nat k) (sort_key (\<lambda>p. - fst p) (zip xs [0..<length xs]))
           in Some (map fst ps, map snd ps))"

subsection \<open>Expansion selector\<close>

text \<open>The list \<^verbatim>\<open>hyp_i\<close> of \<^verbatim>\<open>select_k_expansions_durations\<close>: the two nested
  loops over the zipped token and duration candidates of one hypothesis.\<close>

definition hyp_i_candidates ::
  "real \<Rightarrow> nat list \<Rightarrow> real list \<Rightarrow> nat list \<Rightarrow> real list \<Rightarrow> (nat \<times> nat \<times> real) list" where
  "hyp_i_candidates hyp_score idxs logps duration_idxs duration_logps =
     concat (map (\<lambda>(idx, logp).
               map (\<lambda>(duration_idx, duration_logp).
                     (idx, duration_idx, hyp_score + (logp + duration_logp)))
                   (zip duration_idxs duration_logps))
             (zip idxs logps))"

definition cand_score :: "nat \<times> nat \<times> real \<Rightarrow> real" where
  "cand_score x = snd (snd x)"

text \<open>The prune-by-value step: \<^verbatim>\<open>max\<close> raises on an empty candidate list.\<close>

definition prune_by_value ::
  "real \<Rightarrow> (nat \<times> nat \<times> real) list \<Rightarrow> (nat \<times> nat \<times> real) list option" where
  "prune_by_value gamma hyp_i =
     (case max_by cand_score hyp_i of
        None \<Rightarrow> None
      | Some best_hyp_i \<Rightarrow>
          let best_score = cand_score best_hyp_i
          in Some (sort_key cand_score
                    (filter (\<lambda>x. best_score - gamma \<le> cand_score x) hyp_i)))"

text \<open>The loop over \<^verbatim>\<open>enumerate(hyps)\<close>, from index \<open>i\<close> on; row \<open>i\<close> of each
  of the four tensors belongs to hypothesis \<open>i\<close>.\<close>

fun select_k_expansions_from ::
  "nat \<Rightarrow> ('s, 'o, 'l) hypothesis list \<Rightarrow> nat list list \<Rightarrow> real list list \<Rightarrow>
   nat list list \<Rightarrow> real list list \<Rightarrow> real \<Rightarrow> (nat \<times> nat \<times> real) list list option" where
  "select_k_expansions_from i [] topk_idxs topk_logps topk_duration_idxs topk_duration_logps gamma =
     Some []"
| "select_k_expansions_from i (hyp # hyps) topk_idxs topk_logps topk_duration_idxs
       topk_duration_logps gamma =
     do {
       idxs \<leftarrow> nth_opt topk_idxs i;
       logps \<leftarrow> nth_opt topk_logps i;
       duration_idxs \<leftarrow> nth_opt topk_duration_idxs i;
       duration_logps \<leftarrow> nth_opt topk_duration_logps i;
       expansions \<leftarrow> prune_by_value gamma
          (hyp_i_candidates (score hyp) idxs logps duration_idxs duration_logps);
       k_expansions \<leftarrow> select_k_expansions_from (Suc i) hyps topk_idxs topk_logps
          topk_duration_idxs topk_duration_logps gamma;
       Some (expansions # k_expansions)
     }"

definition select_k_expansions_durations ::
  "('s, 'o, 'l) hypothesis list \<Rightarrow> nat list list \<Rightarrow> real list list \<Rightarrow>
   nat list list \<Rightarrow> real list list \<Rightarrow> real \<Rightarrow> (nat \<times> nat \<times> real) list list option" where
  "select_k_expansions_durations hyps topk_idxs topk_logps topk_duration_idxs
       topk_duration_logps gamma =
     select_k_expansions_from 0 hyps topk_idxs topk_logps topk_duration_idxs
       topk_duration_logps gamma"

subsection \<open>Construction\<close>

text \<open>The exceptions that leave \<^verbatim>\<open>__init__\<close>; \<open>ModelLoadError\<close> stands for whatever
  \<^verbatim>\<open>kenlm.Model\<close> raises on a file that it cannot read.\<close>

datatype error = ValueError | NotImplementedError | ImportError | ModelLoadError

text \<open>What \<^verbatim>\<open>__init__\<close> finds outside its arguments: the module flag
  \<^verbatim>\<open>KENLM_AVAILABLE\<close>, and for each path whether \<^verbatim>\<open>kenlm.Model(path)\<close> returns a
  model.\<close>

record environment =
  kenlm_available :: bool
  kenlm_loads :: "string \<Rightarrow> bool"

datatype search_algorithm =
  Greedy_search | Default_beam_search | Modified_adaptive_expansion_search

text \<open>The attributes that \<^verbatim>\<open>__init__\<close> sets only for \<^verbatim>\<open>search_type == 'maes'\<close>.\<close>

record maes_options =
  maes_num_steps :: int
  maes_prefix_alpha :: int
  maes_expansion_beta :: int
  maes_expansion_gamma :: real

text \<open>The decoder object (\<^verbatim>\<open>self\<close>) without the two networks. \<open>ngram_lm\<close> tells whether
  an N-gram model is loaded.\<close>

record decoder =
  durations :: "nat list"
  token_offset :: nat
  search_type :: string
  blank :: nat
  vocab_size :: int
  return_best_hypothesis :: bool
  beam_size :: int
  score_norm :: bool
  max_candidates :: int
  tdt_duration_beam_size :: int
  search_algorithm :: search_algorithm
  maes :: "maes_options option"
  zero_duration_idx :: "nat option"
  min_non_zero_duration_idx :: nat
  ngram_lm :: bool
  ngram_lm_alpha :: real

text \<open>The arguments of \<^verbatim>\<open>__init__\<close>; \<open>arg_blank_idx\<close> and \<open>arg_vocab_size\<close> are
  read from \<^verbatim>\<open>decoder_model\<close>.\<close>

record init_args =
  arg_blank_idx :: nat
  arg_vocab_size :: int
  arg_durations :: "nat list"
  arg_beam_size :: int
  arg_search_type :: string
  arg_score_norm :: bool
  arg_return_best_hypothesis :: bool
  arg_maes_num_steps :: int
  arg_maes_prefix_alpha :: int
  arg_maes_expansion_gamma :: real
  arg_maes_expansion_beta :: int
  arg_preserve_alignments :: bool
  arg_ngram_lm_model :: "string option"
  arg_ngram_lm_alpha :: real

text \<open>The \<^verbatim>\<open>if\<close>/\<^verbatim>\<open>elif\<close> chain that binds \<^verbatim>\<open>self.search_algorithm\<close>.\<close>

definition choose_search_algorithm :: "int \<Rightarrow> string \<Rightarrow> error + search_algorithm" where
  "choose_search_algorithm beam_sz search_ty =
     (if beam_sz = 1 then Inr Greedy_search
      else if search_ty = ''default'' then Inr Default_beam_search
      else if search_ty = ''tsd'' then Inl NotImplementedError
      else if search_ty = ''alsd'' then Inl NotImplementedError
      else if search_ty = ''nsc'' then Inl NotImplementedError
      else if search_ty = ''maes'' then Inr Modified_adaptive_expansion_search
      else Inl NotImplementedError)"

text \<open>The block under \<^verbatim>\<open>if self.search_type == 'maes'\<close>: the options and the three
  range checks, in the order of the source.\<close>

definition maes_setup :: "init_args \<Rightarrow> error + maes_options option" where
  "maes_setup a =
     (if arg_search_type a = ''maes'' then
        if arg_maes_prefix_alpha a < 0 then Inl ValueError
        else if arg_vocab_size a < arg_beam_size a + arg_maes_expansion_beta a then Inl ValueError
        else if arg_maes_num_steps a < 2 then Inl ValueError
        else Inr (Some \<lparr>maes_num_steps = arg_maes_num_steps a,
                        maes_prefix_alpha = arg_maes_prefix_alpha a,
                        maes_expansion_beta = arg_maes_expansion_beta a,
                        maes_expansion_gamma = arg_maes_expansion_gamma a\<rparr>)
      else Inr None)"

text \<open>\<^verbatim>\<open>self.durations.index(0)\<close> inside \<^verbatim>\<open>try\<close>: the first position of a zero,
  \<^verbatim>\<open>None\<close> when there is none.\<close>

definition index_of_zero :: "nat list \<Rightarrow> nat option" where
  "index_of_zero ds =
     (if 0 \<in> set ds then Some (length (takeWhile (\<lambda>d. d \<noteq> 0) ds)) else None)"

text \<open>
  \<^verbatim>\<open>np.argmin(np.ma.masked_where(np.array(ds) == 0, ds))\<close>: the first position of the
  least non-zero entry. NumPy fills the masked entries with the greatest integer, so a
  table of zeros only gives position 0; the empty table raises.
\<close>

definition argmin_masked_zero :: "nat list \<Rightarrow> nat option" where
  "argmin_masked_zero ds =
     (if ds = [] then None
      else let nz = filter (\<lambda>d. d \<noteq> 0) ds
           in if nz = [] then Some 0
              else Some (length (takeWhile (\<lambda>d. d \<noteq> foldr min nz (hd nz)) ds)))"

text \<open>The block under \<^verbatim>\<open>if ngram_lm_model:\<close>; a path is true when it is a non-empty
  string. \<^verbatim>\<open>kenlm.Model(ngram_lm_model)\<close> is called inside \<^verbatim>\<open>__init__\<close> without a
  handler, so its exception leaves the constructor.\<close>

definition lm_setup :: "environment \<Rightarrow> init_args \<Rightarrow> error + bool" where
  "lm_setup env a =
     (case arg_ngram_lm_model a of
        None \<Rightarrow> Inr False
      | Some path \<Rightarrow>
          if path = [] then Inr False
          else if arg_search_type a \<noteq> ''maes'' then Inl ValueError
          else if kenlm_available env then
            if kenlm_loads env path then Inr True else Inl ModelLoadError
          else Inl ImportError)"

definition init :: "environment \<Rightarrow> init_args \<Rightarrow> error + decoder" where
  "init env a =
     (if arg_preserve_alignments a then Inl ValueError
      else if arg_beam_size a < 1 then Inl ValueError
      else case choose_search_algorithm (arg_beam_size a) (arg_search_type a) of
        Inl e \<Rightarrow> Inl e
      | Inr algorithm \<Rightarrow>
      (case maes_setup a of
        Inl e \<Rightarrow> Inl e
      | Inr options \<Rightarrow>
      (case argmin_masked_zero (arg_durations a) of
        None \<Rightarrow> Inl ValueError
      | Some m \<Rightarrow>
      (case lm_setup env a of
        Inl e \<Rightarrow> Inl e
      | Inr lm \<Rightarrow>
          Inr \<lparr>durations = arg_durations a,
               token_offset = 0,
               search_type = arg_search_type a,
               blank = arg_blank_idx a,
               vocab_size = arg_vocab_size a,
               return_best_hypothesis = arg_return_best_hypothesis a,
               beam_size = arg_beam_size a,
               score_norm = arg_score_norm a,
               max_candidates =
                 (if arg_search_type a = ''maes''
                  then arg_beam_size a + arg_maes_expansion_beta a else arg_beam_size a),
               tdt_duration_beam_size = 2,
               search_algorithm = algorithm,
               maes = options,
               zero_duration_idx = index_of_zero (arg_durations a),
               min_non_zero_duration_idx = m,
               ngram_lm = lm,
               ngram_lm_alpha = (if lm then arg_ngram_lm_alpha a else 0)\<rparr>))))"

text \<open>The error conditions that the specification lists for construction.\<close>

definition spec_construction_fails :: "environment \<Rightarrow> init_args \<Rightarrow> bool" where
  "spec_construction_fails env a \<longleftrightarrow>
     arg_beam_size a < 1
   \<or> arg_maes_num_steps a < 2
   \<or> arg_maes_prefix_alpha a < 0
   \<or> arg_vocab_size a < arg_beam_size a + arg_maes_expansion_beta a
   \<or> (arg_ngram_lm_model a \<noteq> None \<and> arg_search_type a \<noteq> ''maes'')
   \<or> (arg_ngram_lm_model a \<noteq> None \<and> \<not> kenlm_available env)
   \<or> arg_preserve_alignments a
   \<or> arg_search_type a \<notin> {''default'', ''maes''}"

subsection \<open>The entry point\<close>







subsection \<open>The networks and the language model\<close>

text \<open>The symbol handed to the N-gram model: \<^verbatim>\<open>chr(label + offset)\<close> or \<^verbatim>\<open>str(label)\<close>.\<close>

datatype lm_symbol = Chr nat | Str nat

text \<open>
  The external collaborators of one decoding call. \<open>'w\<close> is the mutable scratch state
  of the prediction network that the call owns (the cache dictionary and the batched
  state buffer).
  \<^item> \<open>joint_log_probs t out\<close>: the joint network on encoder frame \<open>t\<close> and prediction
    output \<open>out\<close>, divided by the temperature, split in front of the last
    \<^verbatim>\<open>len(durations)\<close> entries and passed through the two log-softmaxes: the token
    log-probabilities and the duration log-probabilities.
  \<^item> \<open>score_hypothesis\<close>: the output and the new state for one hypothesis.
  \<^item> \<open>batch_score_hypothesis\<close>: \<^verbatim>\<open>batch_initialize_states\<close>,
    \<^verbatim>\<open>batch_score_hypothesis\<close> and \<^verbatim>\<open>batch_select_state\<close> together: for row \<open>i\<close>
    the output and the selected state.
\<close>

record ('s, 'o, 'l, 'w) networks =
  joint_log_probs :: "nat \<Rightarrow> 'o \<Rightarrow> real list \<times> real list"
  score_hypothesis :: "('s, 'o, 'l) hypothesis \<Rightarrow> 'w \<Rightarrow> 'o \<times> 's \<times> 'w"
  batch_score_hypothesis :: "('s, 'o, 'l) hypothesis list \<Rightarrow> 'w \<Rightarrow> (nat \<Rightarrow> 'o \<times> 's) \<times> 'w"
  initialize_state :: 's
  fresh_cache :: 'w
  BeginSentenceWrite :: 'l
  BaseScore :: "'l \<Rightarrow> lm_symbol \<Rightarrow> real \<times> 'l"

text \<open>\<^verbatim>\<open>compute_ngram_score\<close>: \<^verbatim>\<open>chr\<close> raises beyond the last code point; the score is
  converted from base 10 to the natural logarithm.\<close>

definition compute_ngram_score ::
  "decoder \<Rightarrow> ('s, 'o, 'l, 'w) networks \<Rightarrow> 'l \<Rightarrow> nat \<Rightarrow> (real \<times> 'l) option" where
  "compute_ngram_score self nets current_lm_state label =
     do {
       symbol \<leftarrow> (if token_offset self \<noteq> 0
                  then (if label + token_offset self < 1114112
                        then Some (Chr (label + token_offset self)) else None)
                  else Some (Str label));
       let (lm_score, next_state) = BaseScore nets current_lm_state symbol;
       Some (lm_score * (1 / log 10 (exp 1)), next_state)
     }"

subsection \<open>Prefix-score corrector\<close>

text \<open>Modelled from the spec: \<^verbatim>\<open>is_prefix\<close> is imported from \<^verbatim>\<open>rnnt_utils\<close>, which is
  not among the sources; the specification applies the correction when the shorter
  token sequence is a strict prefix of the longer one.\<close>

definition is_prefix :: "nat list \<Rightarrow> nat list \<Rightarrow> bool" where
  "is_prefix x pref \<longleftrightarrow> strict_prefix pref x"

text \<open>\<^verbatim>\<open>np.logaddexp\<close>.\<close>

definition logaddexp :: "real \<Rightarrow> real \<Rightarrow> real" where
  "logaddexp a b = ln (exp a + exp b)"

text \<open>The score of one more token under the zero duration, with the language model's
  share when a model is loaded; \<open>lm_state\<close> is the state threaded so far.\<close>

definition zero_duration_token_score ::
  "decoder \<Rightarrow> ('s, 'o, 'l, 'w) networks \<Rightarrow> nat \<Rightarrow> 'o \<Rightarrow> nat \<Rightarrow> 'l option \<Rightarrow>
   (real \<times> 'l option) option" where
  "zero_duration_token_score self nets t out token lm_state =
     do {
       let (logp, duration_logp) = joint_log_probs nets t out;
       token_logp \<leftarrow> nth_opt logp token;
       z \<leftarrow> zero_duration_idx self;
       zero_logp \<leftarrow> nth_opt duration_logp z;
       if ngram_lm self then
         do {
           st \<leftarrow> lm_state;
           (lm_score, next_state) \<leftarrow> compute_ngram_score self nets st token;
           Some (token_logp + zero_logp + ngram_lm_alpha self * lm_score, Some next_state)
         }
       else Some (token_logp + zero_logp, lm_state)
     }"

text \<open>The loop \<^verbatim>\<open>for k in range(pref_hyp_length, curr_hyp_length - 1)\<close>.\<close>

fun prefix_tail_score ::
  "decoder \<Rightarrow> ('s, 'o, 'l, 'w) networks \<Rightarrow> nat \<Rightarrow> ('s, 'o, 'l) hypothesis \<Rightarrow> nat list \<Rightarrow>
   real \<times> 'l option \<Rightarrow> (real \<times> 'l option) option" where
  "prefix_tail_score self nets t curr_hyp [] acc = Some acc"
| "prefix_tail_score self nets t curr_hyp (k # ks) acc =
     do {
       out \<leftarrow> nth_opt (dec_out curr_hyp) k;
       token \<leftarrow> nth_opt (y_sequence curr_hyp) (k + 1);
       (delta, next_state) \<leftarrow> zero_duration_token_score self nets t out token (snd acc);
       prefix_tail_score self nets t curr_hyp ks (fst acc + delta, next_state)
     }"

text \<open>The body of the inner loop of \<^verbatim>\<open>prefix_search\<close> for one pair.\<close>

definition prefix_update ::
  "decoder \<Rightarrow> ('s, 'o, 'l, 'w) networks \<Rightarrow> nat \<Rightarrow> int \<Rightarrow> ('s, 'o, 'l) hypothesis \<Rightarrow>
   ('s, 'o, 'l) hypothesis \<Rightarrow> ('s, 'o, 'l) hypothesis option" where
  "prefix_update self nets t prefix_alpha curr_hyp pref_hyp =
     (let curr_hyp_length = length (y_sequence curr_hyp);
          pref_hyp_length = length (y_sequence pref_hyp)
      in if is_prefix (y_sequence curr_hyp) (y_sequence pref_hyp)
            \<and> int curr_hyp_length - int pref_hyp_length \<le> prefix_alpha
         then
           do {
             out \<leftarrow> last_opt (dec_out pref_hyp);
             token \<leftarrow> nth_opt (y_sequence curr_hyp) pref_hyp_length;
             (delta, next_state) \<leftarrow>
               zero_duration_token_score self nets t out token (ngram_lm_state pref_hyp);
             (curr_score, final_state) \<leftarrow>
               prefix_tail_score self nets t curr_hyp [pref_hyp_length ..< curr_hyp_length - 1]
                 (score pref_hyp + delta, next_state);
             Some (curr_hyp\<lparr>score := logaddexp (score curr_hyp) curr_score\<rparr>)
           }
         else Some curr_hyp)"

text \<open>The inner loop: \<open>curr_hyp\<close> against each later hypothesis in turn.\<close>

fun prefix_inner ::
  "decoder \<Rightarrow> ('s, 'o, 'l, 'w) networks \<Rightarrow> nat \<Rightarrow> int \<Rightarrow> ('s, 'o, 'l) hypothesis \<Rightarrow>
   ('s, 'o, 'l) hypothesis list \<Rightarrow> ('s, 'o, 'l) hypothesis option" where
  "prefix_inner self nets t prefix_alpha curr_hyp [] = Some curr_hyp"
| "prefix_inner self nets t prefix_alpha curr_hyp (pref_hyp # rest) =
     do {
       curr_hyp' \<leftarrow> prefix_update self nets t prefix_alpha curr_hyp pref_hyp;
       prefix_inner self nets t prefix_alpha curr_hyp' rest
     }"

text \<open>The outer loop. The scores are updated in place; a hypothesis is read as a prefix
  only before its own turn, so the later hypotheses are still unchanged when \<open>curr_hyp\<close>
  is corrected.\<close>

fun prefix_search ::
  "decoder \<Rightarrow> ('s, 'o, 'l, 'w) networks \<Rightarrow> nat \<Rightarrow> int \<Rightarrow> ('s, 'o, 'l) hypothesis list \<Rightarrow>
   ('s, 'o, 'l) hypothesis list option" where
  "prefix_search self nets t prefix_alpha [] = Some []"
| "prefix_search self nets t prefix_alpha (curr_hyp # rest) =
     do {
       curr_hyp' \<leftarrow> prefix_inner self nets t prefix_alpha curr_hyp rest;
       rest' \<leftarrow> prefix_search self nets t prefix_alpha rest;
       Some (curr_hyp' # rest')
     }"

subsection \<open>N-best sorting\<close>

text \<open>\<^verbatim>\<open>sort_nbest\<close>: the normalised score divides by the number of tokens, which
  raises for an empty token sequence.\<close>

definition sort_nbest ::
  "decoder \<Rightarrow> ('s, 'o, 'l) hypothesis list \<Rightarrow> ('s, 'o, 'l) hypothesis list option" where
  "sort_nbest self hyps =
     (if score_norm self then
        if list_ex (\<lambda>h. y_sequence h = []) hyps then None
        else Some (sort_key (\<lambda>h. - (score h / real (length (y_sequence h)))) hyps)
      else Some (sorted_by_score_desc hyps))"

subsection \<open>Default beam search\<close>

text \<open>The first hypothesis of both searches.\<close>

definition start_hyp :: "decoder \<Rightarrow> 's \<Rightarrow> 'o list \<Rightarrow> 'l option \<Rightarrow> ('s, 'o, 'l) hypothesis" where
  "start_hyp self st outs lm =
     \<lparr>score = 0, y_sequence = [blank self], dec_state = st, dec_out = outs,
      timestep = [- 1], length_frames = 0, last_frame = 0, ngram_lm_state = lm\<rparr>"

text \<open>\<^verbatim>\<open>torch.cartesian_prod(durations_logp_topks, logp_topks).sum(dim=-1)\<close>: the duration
  is the outer index.\<close>

definition cartesian_sums :: "real list \<Rightarrow> real list \<Rightarrow> real list" where
  "cartesian_sums ds ls = concat (map (\<lambda>d. map (\<lambda>l. d + l) ls) ds)"

text \<open>One child for a selected (token, duration) pair, with its duration.\<close>

definition nonblank_child ::
  "decoder \<Rightarrow> nat \<Rightarrow> nat \<Rightarrow> ('s, 'o, 'l) hypothesis \<Rightarrow> 's \<Rightarrow> nat \<Rightarrow> nat list \<Rightarrow> nat list \<Rightarrow>
   real \<times> nat \<Rightarrow> (nat \<times> ('s, 'o, 'l) hypothesis) option" where
  "nonblank_child self encoded_lengths time_idx max_hyp decoder_state beam_k logp_topk_idxs
       durations_logp_topk_idxs pair =
     (case pair of (sum_logp_topk, sum_logp_topk_idx) \<Rightarrow>
       do {
         let token_idx = sum_logp_topk_idx mod beam_k;
         let duration_idx = sum_logp_topk_idx div beam_k;
         d \<leftarrow> nth_opt durations_logp_topk_idxs duration_idx;
         duration \<leftarrow> nth_opt (durations self) d;
         token \<leftarrow> nth_opt logp_topk_idxs token_idx;
         Some (duration,
           \<lparr>score = score max_hyp + sum_logp_topk,
            y_sequence = y_sequence max_hyp @ [token],
            dec_state = decoder_state,
            dec_out = [],
            timestep = timestep max_hyp @ [int time_idx + int duration],
            length_frames = encoded_lengths,
            last_frame = last_frame max_hyp + duration,
            ngram_lm_state = None\<rparr>)
       })"

text \<open>The blank children of one duration of the top-k: none when the duration is the
  zero duration and the top-k has other entries.\<close>

definition blank_child ::
  "decoder \<Rightarrow> nat \<Rightarrow> ('s, 'o, 'l) hypothesis \<Rightarrow> real list \<Rightarrow> real list \<Rightarrow> nat \<Rightarrow> nat \<Rightarrow>
   ('s, 'o, 'l) hypothesis list option" where
  "blank_child self encoded_lengths max_hyp logp durations_logp topk_size duration_idx0 =
     (if Some duration_idx0 = zero_duration_idx self \<and> topk_size \<noteq> 1 then Some []
      else
        do {
          let duration_idx =
            (if Some duration_idx0 = zero_duration_idx self
             then min_non_zero_duration_idx self else duration_idx0);
          duration \<leftarrow> nth_opt (durations self) duration_idx;
          blank_logp \<leftarrow> nth_opt logp (blank self);
          duration_logp \<leftarrow> nth_opt durations_logp duration_idx;
          Some [\<lparr>score = score max_hyp + blank_logp + duration_logp,
                 y_sequence = y_sequence max_hyp,
                 dec_state = dec_state max_hyp,
                 dec_out = [],
                 timestep = timestep max_hyp,
                 length_frames = encoded_lengths,
                 last_frame = last_frame max_hyp + duration,
                 ngram_lm_state = None\<rparr>]
        })"

text \<open>The check at the end of an iteration of the inner loop: the new future list and
  whether the loop is left by \<^verbatim>\<open>break\<close>.\<close>

definition termination_check ::
  "int \<Rightarrow> ('s, 'o, 'l) hypothesis list \<Rightarrow> ('s, 'o, 'l) hypothesis list \<Rightarrow>
   ('s, 'o, 'l) hypothesis list \<times> bool" where
  "termination_check beam hyps kept_hyps =
     (case max_by score hyps of
        Some best \<Rightarrow>
          let hyps_max = score best;
              kept_most_prob = sorted_by_score (filter (\<lambda>hyp. hyps_max < score hyp) kept_hyps)
          in if beam \<le> int (length kept_most_prob) then (kept_most_prob, True)
             else (kept_hyps, False)
      | None \<Rightarrow> (py_take beam (sorted_by_score_desc kept_hyps), False))"

text \<open>The body of \<^verbatim>\<open>while len(hyps) > 0\<close> up to the removal of duplicates: the best
  hypothesis is taken out of \<open>hyps\<close> and expanded, its children with duration 0 go
  back to \<open>hyps\<close>, the others and the blank children to \<open>kept_hyps\<close>.\<close>

definition default_expand ::
  "decoder \<Rightarrow> ('s, 'o, 'l, 'w) networks \<Rightarrow> nat \<Rightarrow> nat \<Rightarrow>
   ('s, 'o, 'l) hypothesis list \<times> ('s, 'o, 'l) hypothesis list \<times> 'w \<Rightarrow>
   (('s, 'o, 'l) hypothesis list \<times> ('s, 'o, 'l) hypothesis list \<times> 'w) option" where
  "default_expand self nets encoded_lengths time_idx state =
     (case state of (hyps, kept_hyps, w) \<Rightarrow>
       do {
         let beam = min (beam_size self) (vocab_size self);
         let beam_k = min beam (vocab_size self - 1);
         let durations_beam_k = min beam (int (length (durations self)));
         max_hyp \<leftarrow> max_by score hyps;
         let hyps1 = remove1 max_hyp hyps;
         let (decoder_output, decoder_state, w1) = score_hypothesis nets max_hyp w;
         let (logp, durations_logp) = joint_log_probs nets time_idx decoder_output;
         (logp_topks, logp_topk_idxs) \<leftarrow> topk beam_k (butlast logp);
         (durations_logp_topks, durations_logp_topk_idxs) \<leftarrow>
            topk durations_beam_k durations_logp;
         (sum_logp_topks, sum_logp_topk_idxs) \<leftarrow>
            topk beam_k (cartesian_sums durations_logp_topks logp_topks);
         children \<leftarrow> those (map
            (nonblank_child self encoded_lengths time_idx max_hyp decoder_state (nat beam_k)
               logp_topk_idxs durations_logp_topk_idxs)
            (zip sum_logp_topks sum_logp_topk_idxs));
         let hyps2 = hyps1 @ map snd (filter (\<lambda>c. fst c = 0) children);
         let kept1 = kept_hyps @ map snd (filter (\<lambda>c. fst c \<noteq> 0) children);
         blanks \<leftarrow> those (map
            (blank_child self encoded_lengths max_hyp logp durations_logp
               (length durations_logp_topk_idxs))
            durations_logp_topk_idxs);
         let kept2 = remove_duplicate_hypotheses (kept1 @ concat blanks);
         Some (hyps2, kept2, w1)
       })"

text \<open>One iteration of \<^verbatim>\<open>while len(hyps) > 0\<close>: the expansion, then the check at its
  end; the last component tells whether the loop is left by \<^verbatim>\<open>break\<close>.\<close>

definition default_iteration ::
  "decoder \<Rightarrow> ('s, 'o, 'l, 'w) networks \<Rightarrow> nat \<Rightarrow> nat \<Rightarrow>
   ('s, 'o, 'l) hypothesis list \<times> ('s, 'o, 'l) hypothesis list \<times> 'w \<Rightarrow>
   ((('s, 'o, 'l) hypothesis list \<times> ('s, 'o, 'l) hypothesis list \<times> 'w) \<times> bool) option" where
  "default_iteration self nets encoded_lengths time_idx state =
     do {
       (hyps, kept_hyps, w) \<leftarrow> default_expand self nets encoded_lengths time_idx state;
       let beam = min (beam_size self) (vocab_size self);
       let (kept_hyps', break) = termination_check beam hyps kept_hyps;
       Some ((hyps, kept_hyps', w), break)
     }"

text \<open>The inner loop. It need not end: a zero duration puts a child back into the
  current frame. \<open>None\<close> is a call that raises or does not return.\<close>

partial_function (option) default_while ::
  "decoder \<Rightarrow> ('s, 'o, 'l, 'w) networks \<Rightarrow> nat \<Rightarrow> nat \<Rightarrow>
   ('s, 'o, 'l) hypothesis list \<times> ('s, 'o, 'l) hypothesis list \<times> 'w \<Rightarrow>
   (('s, 'o, 'l) hypothesis list \<times> ('s, 'o, 'l) hypothesis list \<times> 'w) option" where
  "default_while self nets encoded_lengths time_idx state =
     (if fst state = [] then Some state
      else Option.bind (default_iteration self nets encoded_lengths time_idx state)
             (\<lambda>r. if snd r then Some (fst r)
                  else default_while self nets encoded_lengths time_idx (fst r)))"

text \<open>One iteration of the loop over the frames.\<close>

definition default_frame ::
  "decoder \<Rightarrow> ('s, 'o, 'l, 'w) networks \<Rightarrow> nat \<Rightarrow> nat \<Rightarrow>
   ('s, 'o, 'l) hypothesis list \<times> 'w \<Rightarrow> (('s, 'o, 'l) hypothesis list \<times> 'w) option" where
  "default_frame self nets encoded_lengths time_idx state =
     (case state of (kept_hyps, w) \<Rightarrow>
       let hyps = filter (\<lambda>hyp. last_frame hyp = time_idx) kept_hyps;
           kept = filter (\<lambda>hyp. time_idx < last_frame hyp) kept_hyps
       in map_option (\<lambda>r. (fst (snd r), snd (snd r)))
            (default_while self nets encoded_lengths time_idx (hyps, kept, w)))"

fun default_frames ::
  "decoder \<Rightarrow> ('s, 'o, 'l, 'w) networks \<Rightarrow> nat \<Rightarrow> nat list \<Rightarrow>
   ('s, 'o, 'l) hypothesis list \<times> 'w \<Rightarrow> (('s, 'o, 'l) hypothesis list \<times> 'w) option" where
  "default_frames self nets encoded_lengths [] state = Some state"
| "default_frames self nets encoded_lengths (time_idx # rest) state =
     Option.bind (default_frame self nets encoded_lengths time_idx state)
       (default_frames self nets encoded_lengths rest)"

definition default_beam_search ::
  "decoder \<Rightarrow> ('s, 'o, 'l, 'w) networks \<Rightarrow> nat \<Rightarrow> ('s, 'o, 'l) hypothesis list option" where
  "default_beam_search self nets encoded_lengths =
     do {
       (kept_hyps, w) \<leftarrow> default_frames self nets encoded_lengths [0 ..< encoded_lengths]
          ([start_hyp self (initialize_state nets) [] None], fresh_cache nets);
       sort_nbest self kept_hyps
     }"

subsection \<open>Modified adaptive expansion search\<close>

text \<open>Python's truth value of \<^verbatim>\<open>self.zero_duration_idx\<close>: \<^verbatim>\<open>None\<close> and \<open>0\<close> are
  false.\<close>

definition truthy :: "nat option \<Rightarrow> bool" where
  "truthy x = (case x of None \<Rightarrow> False | Some n \<Rightarrow> n \<noteq> 0)"

text \<open>The list that an expansion is appended to.\<close>

datatype ('s, 'o, 'l) routed =
  To_list_b "('s, 'o, 'l) hypothesis"
| To_list_exp "('s, 'o, 'l) hypothesis"
| To_list_nb "('s, 'o, 'l) hypothesis"

fun in_list_b :: "('s, 'o, 'l) routed \<Rightarrow> ('s, 'o, 'l) hypothesis option" where
  "in_list_b (To_list_b h) = Some h"
| "in_list_b _ = None"

fun in_list_exp :: "('s, 'o, 'l) routed \<Rightarrow> ('s, 'o, 'l) hypothesis option" where
  "in_list_exp (To_list_exp h) = Some h"
| "in_list_exp _ = None"

fun in_list_nb :: "('s, 'o, 'l) routed \<Rightarrow> ('s, 'o, 'l) hypothesis option" where
  "in_list_nb (To_list_nb h) = Some h"
| "in_list_nb _ = None"

text \<open>
  The body of the loop over \<^verbatim>\<open>k_expansions[i]\<close> for one expansion
  \<open>(k, duration_idx, new_score)\<close> of \<open>hyp\<close>; \<open>beam_logp_i\<close> and
  \<open>beam_duration_logp_i\<close> are row \<open>i\<close> of the two log-probability matrices. The
  membership test of the source reads \<^verbatim>\<open>new_hyp.y_sequence + [int(k)]\<close> after \<open>k\<close> has
  been appended to \<^verbatim>\<open>new_hyp.y_sequence\<close>.
\<close>

definition maes_expand ::
  "decoder \<Rightarrow> ('s, 'o, 'l, 'w) networks \<Rightarrow> nat \<Rightarrow> nat list list \<Rightarrow> real list \<Rightarrow> real list \<Rightarrow>
   ('s, 'o, 'l) hypothesis \<Rightarrow> nat \<times> nat \<times> real \<Rightarrow> ('s, 'o, 'l) routed option" where
  "maes_expand self nets t duplication_check beam_logp_i beam_duration_logp_i hyp expansion =
     (case expansion of (k, duration_idx0, new_score) \<Rightarrow>
       do {
         let duration_idx =
           (if k = blank self \<and> truthy (zero_duration_idx self)
               \<and> Some duration_idx0 = zero_duration_idx self
            then min_non_zero_duration_idx self else duration_idx0);
         duration \<leftarrow> nth_opt (durations self) duration_idx;
         let new_hyp =
           \<lparr>score = new_score,
            y_sequence = y_sequence hyp,
            dec_state = dec_state hyp,
            dec_out = dec_out hyp,
            timestep = timestep hyp,
            length_frames = t,
            last_frame = last_frame hyp + duration,
            ngram_lm_state = (if ngram_lm self then ngram_lm_state hyp else None)\<rparr>;
         if k = blank self then
           (if ngram_lm self then
              do {
                blank_logp \<leftarrow> nth_opt beam_logp_i (blank self);
                duration_logp \<leftarrow> nth_opt beam_duration_logp_i duration_idx;
                Some (To_list_b (new_hyp\<lparr>score :=
                  score new_hyp + ngram_lm_alpha self * (blank_logp + duration_logp)\<rparr>))
              }
            else Some (To_list_b new_hyp))
         else
           do {
             let appended = new_hyp\<lparr>y_sequence := y_sequence new_hyp @ [k],
                                     timestep := timestep new_hyp @ [int t]\<rparr>;
             new_hyp' \<leftarrow>
               (if ngram_lm self then
                  do {
                    st \<leftarrow> ngram_lm_state hyp;
                    (lm_score, next_state) \<leftarrow> compute_ngram_score self nets st k;
                    Some (appended\<lparr>score := score appended + ngram_lm_alpha self * lm_score,
                                    ngram_lm_state := Some next_state\<rparr>)
                  }
                else Some appended);
             Some (if duration = 0 \<and> y_sequence new_hyp' @ [k] \<notin> set duplication_check
                   then To_list_exp new_hyp' else To_list_nb new_hyp')
           }
       })"

text \<open>The refresh of the hypotheses in \<^verbatim>\<open>list_nb + list_exp\<close> at the end of a round:
  each gets one more prediction output and the state of its row.\<close>

definition update_hyps ::
  "('s, 'o, 'l, 'w) networks \<Rightarrow> ('s, 'o, 'l) hypothesis list \<Rightarrow> 'w \<Rightarrow>
   ('s, 'o, 'l) hypothesis list \<times> 'w" where
  "update_hyps nets hyps_to_update w =
     (if hyps_to_update = [] then ([], w)
      else let (rows, w') = batch_score_hypothesis nets hyps_to_update w
           in (map (\<lambda>(i, hyp). hyp\<lparr>dec_out := dec_out hyp @ [fst (rows i)],
                                    dec_state := snd (rows i)\<rparr>)
                 (zip [0 ..< length hyps_to_update] hyps_to_update), w'))"

text \<open>
  One round of the loop \<^verbatim>\<open>for n in range(self.maes_num_steps)\<close> up to the refresh:
  the new \<^verbatim>\<open>list_b\<close>, \<^verbatim>\<open>list_nb\<close>, the round's \<^verbatim>\<open>list_exp\<close> and the scratch state.
  \<^verbatim>\<open>torch.stack\<close> raises on an empty list of hypotheses.
\<close>

definition maes_round ::
  "decoder \<Rightarrow> ('s, 'o, 'l, 'w) networks \<Rightarrow> nat \<Rightarrow> nat list list \<Rightarrow> real \<Rightarrow>
   ('s, 'o, 'l) hypothesis list \<Rightarrow>
   ('s, 'o, 'l) hypothesis list \<times> ('s, 'o, 'l) hypothesis list \<times> 'w \<Rightarrow>
   (('s, 'o, 'l) hypothesis list \<times> ('s, 'o, 'l) hypothesis list \<times>
    ('s, 'o, 'l) hypothesis list \<times> 'w) option" where
  "maes_round self nets t duplication_check gamma hyps buckets =
     (case buckets of (list_b, list_nb, w) \<Rightarrow>
       do {
         outs \<leftarrow> those (map (\<lambda>h. last_opt (dec_out h)) hyps);
         _ \<leftarrow> (if hyps = [] then None else Some ());
         let beam_logps = map (joint_log_probs nets t) outs;
         token_topk \<leftarrow> those (map (\<lambda>p. topk (max_candidates self) (fst p)) beam_logps);
         duration_topk \<leftarrow>
           those (map (\<lambda>p. topk (tdt_duration_beam_size self) (snd p)) beam_logps);
         k_expansions \<leftarrow> select_k_expansions_durations hyps
            (map snd token_topk) (map fst token_topk)
            (map snd duration_topk) (map fst duration_topk) gamma;
         routed \<leftarrow> those (concat (map
            (\<lambda>(hyp, p, expansions).
               map (maes_expand self nets t duplication_check (fst p) (snd p) hyp) expansions)
            (zip hyps (zip beam_logps k_expansions))));
         let list_b' = list_b @ List.map_filter in_list_b routed;
         let list_nb' = list_nb @ List.map_filter in_list_nb routed;
         let list_exp = List.map_filter in_list_exp routed;
         let (updated, w') = update_hyps nets (list_nb' @ list_exp) w;
         Some (list_b', take (length list_nb') updated, drop (length list_nb') updated, w')
       })"

text \<open>\<^verbatim>\<open>torch.max(x, dim=-1)\<close> on one row: the position of the greatest entry (the first
  one here); raises on an empty row.\<close>

definition argmax :: "real list \<Rightarrow> nat option" where
  "argmax xs =
     (if xs = [] then None
      else Some (length (takeWhile (\<lambda>x. x \<noteq> foldr max xs (hd xs)) xs)))"

text \<open>The last round's closing blank for one hypothesis of \<^verbatim>\<open>list_exp\<close>.\<close>

definition final_blank ::
  "decoder \<Rightarrow> ('s, 'o, 'l, 'w) networks \<Rightarrow> nat \<Rightarrow> ('s, 'o, 'l) hypothesis \<Rightarrow>
   ('s, 'o, 'l) hypothesis option" where
  "final_blank self nets t hyp =
     do {
       out \<leftarrow> last_opt (dec_out hyp);
       let (beam_logp_i, beam_duration_logp_i) = joint_log_probs nets t out;
       max_idx \<leftarrow> argmax beam_duration_logp_i;
       let duration_idx =
         (if Some max_idx = zero_duration_idx self
          then min_non_zero_duration_idx self else max_idx);
       blank_logp \<leftarrow> nth_opt beam_logp_i (blank self);
       duration_logp \<leftarrow> nth_opt beam_duration_logp_i duration_idx;
       duration \<leftarrow> nth_opt (durations self) duration_idx;
       Some (hyp\<lparr>score := score hyp + (blank_logp + duration_logp),
                 last_frame := last_frame hyp + duration\<rparr>)
     }"

text \<open>\<^verbatim>\<open>sorted(remove_duplicate_hypotheses(xs), key=score, reverse=True)[:beam]\<close>.\<close>

definition keep_beam ::
  "decoder \<Rightarrow> ('s, 'o, 'l) hypothesis list \<Rightarrow> ('s, 'o, 'l) hypothesis list" where
  "keep_beam self xs =
     py_take (min (beam_size self) (vocab_size self))
       (sorted_by_score_desc (remove_duplicate_hypotheses xs))"

text \<open>
  The rounds of one frame; the numeral counts the rounds that are left, so the last
  round is \<open>Suc 0\<close>. The state is \<^verbatim>\<open>hyps\<close>, \<^verbatim>\<open>list_b\<close>, \<^verbatim>\<open>list_nb\<close>, \<^verbatim>\<open>kept_hyps\<close> and
  the scratch state; the result is the \<^verbatim>\<open>kept_hyps\<close> after the loop.
\<close>

fun maes_steps ::
  "decoder \<Rightarrow> ('s, 'o, 'l, 'w) networks \<Rightarrow> nat \<Rightarrow> nat list list \<Rightarrow> real \<Rightarrow> nat \<Rightarrow>
   ('s, 'o, 'l) hypothesis list \<times> ('s, 'o, 'l) hypothesis list \<times>
   ('s, 'o, 'l) hypothesis list \<times> ('s, 'o, 'l) hypothesis list \<times> 'w \<Rightarrow>
   (('s, 'o, 'l) hypothesis list \<times> 'w) option" where
  "maes_steps self nets t duplication_check gamma 0 state =
     Some (fst (snd (snd (snd state))), snd (snd (snd (snd state))))"
| "maes_steps self nets t duplication_check gamma (Suc left) state =
     (case state of (hyps, list_b, list_nb, kept_hyps, w) \<Rightarrow>
       do {
         (list_b', list_nb', list_exp, w') \<leftarrow>
            maes_round self nets t duplication_check gamma hyps (list_b, list_nb, w);
         if list_exp = [] then
           Some (keep_beam self (kept_hyps @ list_b' @ list_nb'), w')
         else if left \<noteq> 0 then
           maes_steps self nets t duplication_check gamma left
             (remove_duplicate_hypotheses list_exp, list_b', list_nb', kept_hyps, w')
         else
           do {
             list_exp' \<leftarrow> those (map (final_blank self nets t) list_exp);
             Some (keep_beam self (kept_hyps @ list_b' @ list_exp' @ list_nb'), w')
           }
       })"

text \<open>One iteration of the loop over the frames. A frame without a current hypothesis
  is skipped.\<close>

definition maes_frame ::
  "decoder \<Rightarrow> ('s, 'o, 'l, 'w) networks \<Rightarrow> nat \<Rightarrow>
   ('s, 'o, 'l) hypothesis list \<times> 'w \<Rightarrow> (('s, 'o, 'l) hypothesis list \<times> 'w) option" where
  "maes_frame self nets t state =
     (case state of (kept_hyps0, w) \<Rightarrow>
       let hyps = filter (\<lambda>x. last_frame x = t) kept_hyps0;
           kept_hyps = filter (\<lambda>x. t < last_frame x) kept_hyps0
       in if hyps = [] then Some (kept_hyps, w)
          else
            do {
              options \<leftarrow> maes self;
              hyps' \<leftarrow>
                (if zero_duration_idx self \<noteq> None
                 then prefix_search self nets t (maes_prefix_alpha options)
                        (sort_key (\<lambda>x. - int (length (y_sequence x))) hyps)
                 else Some hyps);
              maes_steps self nets t (map y_sequence hyps') (maes_expansion_gamma options)
                (nat (maes_num_steps options)) (hyps', [], [], kept_hyps, w)
            })"

fun maes_frames ::
  "decoder \<Rightarrow> ('s, 'o, 'l, 'w) networks \<Rightarrow> nat list \<Rightarrow>
   ('s, 'o, 'l) hypothesis list \<times> 'w \<Rightarrow> (('s, 'o, 'l) hypothesis list \<times> 'w) option" where
  "maes_frames self nets [] state = Some state"
| "maes_frames self nets (t # rest) state =
     Option.bind (maes_frame self nets t state) (maes_frames self nets rest)"

text \<open>The hypothesis list before the first frame: the blank hypothesis with the
  prediction output and state of row 0.\<close>

definition maes_initial ::
  "decoder \<Rightarrow> ('s, 'o, 'l, 'w) networks \<Rightarrow> ('s, 'o, 'l) hypothesis list \<times> 'w" where
  "maes_initial self nets =
     (let (rows, w) = batch_score_hypothesis nets
            [start_hyp self (initialize_state nets) [] None] (fresh_cache nets)
      in ([start_hyp self (snd (rows 0)) [fst (rows 0)]
             (if ngram_lm self then Some (BeginSentenceWrite nets) else None)], w))"

text \<open>\<^verbatim>\<open>torch.zeros(beam)\<close> raises for a negative size.\<close>

definition modified_adaptive_expansion_search ::
  "decoder \<Rightarrow> ('s, 'o, 'l, 'w) networks \<Rightarrow> nat \<Rightarrow> ('s, 'o, 'l) hypothesis list option" where
  "modified_adaptive_expansion_search self nets encoded_lengths =
     (if min (beam_size self) (vocab_size self) < 0 then None
      else
        do {
          (kept_hyps, w) \<leftarrow> maes_frames self nets [0 ..< encoded_lengths]
             (maes_initial self nets);
          sort_nbest self kept_hyps
        })"


subsection \<open>The conditions under which construction raises\<close>

text \<open>The error branches of \<^const>\<open>init\<close> collected: the mAES range checks apply under
  \<^verbatim>\<open>search_type == 'maes'\<close> only, the search type is not looked at for a beam of one,
  an empty path counts as no language model, an empty duration table has no
  least non-zero entry, and a model file that the library cannot load raises as
  well.\<close>

definition construction_raises :: "environment \<Rightarrow> init_args \<Rightarrow> bool" where
  "construction_raises env a \<longleftrightarrow>
     arg_preserve_alignments a
   \<or> arg_beam_size a < 1
   \<or> (arg_beam_size a \<noteq> 1 \<and> arg_search_type a \<notin> {''default'', ''maes''})
   \<or> (arg_search_type a = ''maes'' \<and>
        (arg_maes_prefix_alpha a < 0
         \<or> arg_vocab_size a < arg_beam_size a + arg_maes_expansion_beta a
         \<or> arg_maes_num_steps a < 2))
   \<or> arg_durations a = []
   \<or> (case arg_ngram_lm_model a of
         None \<Rightarrow> False
       | Some path \<Rightarrow>
           path \<noteq> [] \<and>
           (arg_search_type a \<noteq> ''maes'' \<or> \<not> kenlm_available env
            \<or> \<not> kenlm_loads env path))"

subsection \<open>Example decoders and networks\<close>

text \<open>An installation with the language model library, where every model file loads.\<close>

definition ex_env :: environment where
  "ex_env = \<lparr>kenlm_available = True, kenlm_loads = (\<lambda>path. True)\<rparr>"

text \<open>A default-search configuration: four tokens \<open>0 \<dots> 3\<close>, the blank at position 4,
  durations 0, 1 and 2, beam 3.\<close>

definition ex_args :: init_args where
  "ex_args =
     \<lparr>arg_blank_idx = 4, arg_vocab_size = 4, arg_durations = [0, 1, 2],
      arg_beam_size = 3, arg_search_type = ''default'', arg_score_norm = False,
      arg_return_best_hypothesis = True, arg_maes_num_steps = 1, arg_maes_prefix_alpha = 1,
      arg_maes_expansion_gamma = 23 / 10, arg_maes_expansion_beta = 2,
      arg_preserve_alignments = False, arg_ngram_lm_model = None, arg_ngram_lm_alpha = 0\<rparr>"

text \<open>The decoder that \<^const>\<open>init\<close> builds from \<^const>\<open>ex_args\<close>.\<close>

definition ex_self :: decoder where
  "ex_self =
     \<lparr>durations = [0, 1, 2], token_offset = 0, search_type = ''default'', blank = 4,
      vocab_size = 4, return_best_hypothesis = True, beam_size = 3, score_norm = False,
      max_candidates = 3, tdt_duration_beam_size = 2,
      search_algorithm = Default_beam_search, maes = None, zero_duration_idx = Some 0,
      min_non_zero_duration_idx = 1, ngram_lm = False, ngram_lm_alpha = 0\<rparr>"

text \<open>The same model under mAES with beam 2 and one extra candidate.\<close>

definition ex_maes_args :: init_args where
  "ex_maes_args =
     \<lparr>arg_blank_idx = 4, arg_vocab_size = 4, arg_durations = [0, 1, 2],
      arg_beam_size = 2, arg_search_type = ''maes'', arg_score_norm = False,
      arg_return_best_hypothesis = True, arg_maes_num_steps = 2, arg_maes_prefix_alpha = 1,
      arg_maes_expansion_gamma = 23 / 10, arg_maes_expansion_beta = 1,
      arg_preserve_alignments = False, arg_ngram_lm_model = None, arg_ngram_lm_alpha = 0\<rparr>"

definition ex_maes_self :: decoder where
  "ex_maes_self =
     \<lparr>durations = [0, 1, 2], token_offset = 0, search_type = ''maes'', blank = 4,
      vocab_size = 4, return_best_hypothesis = True, beam_size = 2, score_norm = False,
      max_candidates = 3, tdt_duration_beam_size = 2,
      search_algorithm = Modified_adaptive_expansion_search,
      maes = Some \<lparr>maes_num_steps = 2, maes_prefix_alpha = 1, maes_expansion_beta = 1,
                   maes_expansion_gamma = 23 / 10\<rparr>,
      zero_duration_idx = Some 0, min_non_zero_duration_idx = 1, ngram_lm = False,
      ngram_lm_alpha = 0\<rparr>"

text \<open>Networks whose joint gives the same two log-probability vectors for every frame
  and every hypothesis: tokens \<open>0 \<dots> 3\<close> and the blank, then durations 0, 1 and 2.\<close>

definition ex_nets :: "(unit, unit, unit, unit) networks" where
  "ex_nets =
     \<lparr>joint_log_probs =
        (\<lambda>t out. ([- 7 / 10, - 4, - 21 / 5, - 9 / 2, - 4 / 5], [- 2, - 7 / 10, - 1])),
      score_hypothesis = (\<lambda>h w. ((), (), w)),
      batch_score_hypothesis = (\<lambda>hs w. (\<lambda>i. ((), ()), w)),
      initialize_state = (), fresh_cache = (), BeginSentenceWrite = (),
      BaseScore = (\<lambda>st sym. (0, st))\<rparr>"

text \<open>The same networks with the zero duration as the most probable one.\<close>

definition ex_nets_zero :: "(unit, unit, unit, unit) networks" where
  "ex_nets_zero =
     \<lparr>joint_log_probs =
        (\<lambda>t out. ([- 7 / 10, - 4, - 21 / 5, - 9 / 2, - 4 / 5], [- 7 / 10, - 1, - 2])),
      score_hypothesis = (\<lambda>h w. ((), (), w)),
      batch_score_hypothesis = (\<lambda>hs w. (\<lambda>i. ((), ()), w)),
      initialize_state = (), fresh_cache = (), BeginSentenceWrite = (),
      BaseScore = (\<lambda>st sym. (0, st))\<rparr>"

subsection \<open>Notions used in the statements\<close>

text \<open>The hypotheses of \<open>kept_hyps\<close> whose score is strictly above the greatest score
  in \<open>hyps\<close>.\<close>

definition qualifying ::
  "('s, 'o, 'l) hypothesis list \<Rightarrow> ('s, 'o, 'l) hypothesis list \<Rightarrow> ('s, 'o, 'l) hypothesis list"
  where
  "qualifying hyps kept_hyps = filter (\<lambda>h. Max (score ` set hyps) < score h) kept_hyps"

text \<open>The effective beam of both searches, \<^verbatim>\<open>min(self.beam_size, self.vocab_size)\<close>.\<close>

definition beam_of :: "decoder \<Rightarrow> int" where
  "beam_of self = min (beam_size self) (vocab_size self)"

text \<open>The token sequence starts with the blank and has no blank after it.\<close>

definition tokens_ok :: "decoder \<Rightarrow> ('s, 'o, 'l) hypothesis \<Rightarrow> bool" where
  "tokens_ok self h \<longleftrightarrow>
     y_sequence h \<noteq> [] \<and> hd (y_sequence h) = blank self
     \<and> blank self \<notin> set (tl (y_sequence h))"

text \<open>A default-search decoder whose blank is the first token: a vocabulary of size 2,
  the blank at position 0 before the two tokens, the single duration 1, beam 2.\<close>

definition ex_blank_first_args :: init_args where
  "ex_blank_first_args =
     \<lparr>arg_blank_idx = 0, arg_vocab_size = 2, arg_durations = [1],
      arg_beam_size = 2, arg_search_type = ''default'', arg_score_norm = False,
      arg_return_best_hypothesis = True, arg_maes_num_steps = 2, arg_maes_prefix_alpha = 1,
      arg_maes_expansion_gamma = 23 / 10, arg_maes_expansion_beta = 2,
      arg_preserve_alignments = False, arg_ngram_lm_model = None, arg_ngram_lm_alpha = 0\<rparr>"

text \<open>The decoder that \<^const>\<open>init\<close> builds from \<^const>\<open>ex_blank_first_args\<close>.\<close>

definition ex_blank_first_self :: decoder where
  "ex_blank_first_self =
     \<lparr>durations = [1], token_offset = 0, search_type = ''default'', blank = 0,
      vocab_size = 2, return_best_hypothesis = True, beam_size = 2, score_norm = False,
      max_candidates = 2, tdt_duration_beam_size = 2,
      search_algorithm = Default_beam_search, maes = None, zero_duration_idx = None,
      min_non_zero_duration_idx = 0, ngram_lm = False, ngram_lm_alpha = 0\<rparr>"

text \<open>Networks for it whose joint gives three token log-probabilities, the blank at
  position 0 the most probable, and probability one to the only duration.\<close>

definition ex_blank_first_nets :: "(unit, unit, unit, unit) networks" where
  "ex_blank_first_nets =
     \<lparr>joint_log_probs = (\<lambda>t out. ([- 1 / 5, - 2, - 3], [0])),
      score_hypothesis = (\<lambda>h w. ((), (), w)),
      batch_score_hypothesis = (\<lambda>hs w. (\<lambda>i. ((), ()), w)),
      initialize_state = (), fresh_cache = (), BeginSentenceWrite = (),
      BaseScore = (\<lambda>st sym. (0, st))\<rparr>"

section \<open>Properties\<close>

subsection \<open>Duplicate suppression\<close>


lemma keep_if_new_cases:
  "keep_if_new acc h = (if hyp_key h \<in> hyp_key ` set acc then acc else acc @ [h])"
proof -
  have "list_ex (\<lambda>k. same_key k h) acc \<longleftrightarrow> hyp_key h \<in> hyp_key ` set acc"
    unfolding list_ex_iff same_key_def hyp_key_def image_iff by (metis (no_types) prod.inject)
  then show ?thesis by (simp add: keep_if_new_def)
qed

lemma foldl_keep_distinct:
  "distinct (map hyp_key acc) \<Longrightarrow> distinct (map hyp_key (foldl keep_if_new acc xs))"
proof (induction xs arbitrary: acc)
  case Nil then show ?case by simp
next
  case (Cons x xs)
  have "distinct (map hyp_key (keep_if_new acc x))"
    using Cons.prems by (simp add: keep_if_new_cases)
  then show ?case using Cons.IH by simp
qed

lemma foldl_keep_keys:
  "hyp_key ` set (foldl keep_if_new acc xs) = hyp_key ` set acc \<union> hyp_key ` set xs"
proof (induction xs arbitrary: acc)
  case Nil then show ?case by simp
next
  case (Cons x xs)
  have "hyp_key ` set (keep_if_new acc x) = hyp_key ` set acc \<union> {hyp_key x}"
    by (auto simp: keep_if_new_cases)
  then show ?case using Cons.IH[of "keep_if_new acc x"] by auto
qed

lemma foldl_keep_subseq:
  "\<exists>ys. foldl keep_if_new acc xs = acc @ ys \<and> subseq ys xs"
proof (induction xs arbitrary: acc)
  case Nil
  then show ?case by simp
next
  case (Cons x xs)
  obtain ys where ys: "foldl keep_if_new (keep_if_new acc x) xs = keep_if_new acc x @ ys" "subseq ys xs"
    using Cons.IH by blast
  show ?case
  proof (cases "hyp_key x \<in> hyp_key ` set acc")
    case True
    then have "foldl keep_if_new acc (x # xs) = acc @ ys" using ys by (simp add: keep_if_new_cases)
    moreover have "subseq ys (x # xs)" using ys(2) by (rule list_emb_Cons)
    ultimately show ?thesis by blast
  next
    case False
    then have "foldl keep_if_new acc (x # xs) = acc @ (x # ys)" using ys by (simp add: keep_if_new_cases)
    moreover have "subseq (x # ys) (x # xs)" using ys by simp
    ultimately show ?thesis by blast
  qed
qed

lemma foldl_keep_first:
  "h \<in> set (foldl keep_if_new acc xs) \<Longrightarrow> h \<notin> set acc \<Longrightarrow> hyp_key h \<notin> hyp_key ` set acc \<and> find (\<lambda>g. hyp_key g = hyp_key h) xs = Some h"
proof (induction xs arbitrary: acc)
  case Nil
  then show ?case by simp
next
  case (Cons x xs)
  show ?case
  proof (cases "hyp_key x \<in> hyp_key ` set acc")
    case True
    then have k: "keep_if_new acc x = acc" by (simp add: keep_if_new_cases)
    have "h \<in> set (foldl keep_if_new acc xs)" using Cons.prems(1) k by simp
    from Cons.IH[OF this Cons.prems(2)] True show ?thesis by auto
  next
    case False
    then have k: "keep_if_new acc x = acc @ [x]" by (simp add: keep_if_new_cases)
    have in': "h \<in> set (foldl keep_if_new (acc @ [x]) xs)" using Cons.prems(1) k by simp
    show ?thesis
    proof (cases "h = x")
      case True
      then show ?thesis using False by simp
    next
      case hx: False
      then have "h \<notin> set (acc @ [x])" using Cons.prems by simp
      from Cons.IH[OF in' this] show ?thesis by auto
    qed
  qed
qed

lemma find_first_sorted_max:
  "sorted (map f xs) \<Longrightarrow> find P xs = Some h \<Longrightarrow> g \<in> set xs \<Longrightarrow> P g \<Longrightarrow> f h \<le> f g"
proof (induction xs)
  case Nil then show ?case by simp
next
  case (Cons x xs)
  then show ?case by (auto split: if_splits)
qed

lemma find_filter: "find P (filter Q xs) = find (\<lambda>x. Q x \<and> P x) xs"
  by (induction xs) auto

lemma find_conj_of_find:
  "find P xs = Some h \<Longrightarrow> Q h \<Longrightarrow> find (\<lambda>x. Q x \<and> P x) xs = Some h"
  by (induction xs) (auto split: if_splits)


lemma sorted_by_score_desc_sorted: "sorted (map (\<lambda>h. - score h) (sorted_by_score_desc hs))"
  by (simp add: sorted_by_score_desc_def)

text \<open>
  Claim C6. Duplicate suppression returns exactly one hypothesis for each
  (token sequence, last frame) key of its input: the keys of the output are pairwise
  different and are the keys of the input. The output is a subsequence of the input
  sorted by descending score, and each hypothesis in it is the first one with its key in
  that sorted list. So it is an input hypothesis of greatest score for its key, and among
  the input hypotheses with that key and that score it is the one that comes first in the
  input.
\<close>

theorem remove_duplicate_hypotheses_max:
  fixes hs :: "('s, 'o, 'l) hypothesis list"
  defines "out \<equiv> remove_duplicate_hypotheses hs"
  shows "distinct (map hyp_key out)
    \<and> hyp_key ` set out = hyp_key ` set hs
    \<and> subseq out (sorted_by_score_desc hs)
    \<and> (\<forall>h \<in> set out.
          h \<in> set hs
        \<and> (\<forall>g \<in> set hs. hyp_key g = hyp_key h \<longrightarrow> score g \<le> score h)
        \<and> find (\<lambda>g. hyp_key g = hyp_key h) (sorted_by_score_desc hs) = Some h
        \<and> find (\<lambda>g. score g = score h \<and> hyp_key g = hyp_key h) hs = Some h)"
proof -
  let ?xs = "sorted_by_score_desc hs"
  have out: "out = foldl keep_if_new [] ?xs"
    by (simp add: out_def remove_duplicate_hypotheses_def)
  have d: "distinct (map hyp_key out)"
    unfolding out by (rule foldl_keep_distinct) simp
  have k: "hyp_key ` set out = hyp_key ` set hs"
    unfolding out by (simp add: foldl_keep_keys sorted_by_score_desc_def)
  have s: "subseq out ?xs"
    using foldl_keep_subseq[of "[]" ?xs] unfolding out by auto
  have each: "h \<in> set hs
        \<and> (\<forall>g \<in> set hs. hyp_key g = hyp_key h \<longrightarrow> score g \<le> score h)
        \<and> find (\<lambda>g. hyp_key g = hyp_key h) ?xs = Some h
        \<and> find (\<lambda>g. score g = score h \<and> hyp_key g = hyp_key h) hs = Some h"
    if h: "h \<in> set out" for h
  proof -
    have f: "find (\<lambda>g. hyp_key g = hyp_key h) ?xs = Some h"
      using foldl_keep_first[of h "[]" ?xs] h unfolding out by simp
    then have "h \<in> set ?xs" by (auto simp: find_Some_iff)
    then have hin: "h \<in> set hs" by (simp add: sorted_by_score_desc_def)
    have mx: "score g \<le> score h" if "g \<in> set hs" "hyp_key g = hyp_key h" for g
    proof -
      have "g \<in> set ?xs" using that by (simp add: sorted_by_score_desc_def)
      from find_first_sorted_max[OF sorted_by_score_desc_sorted f this that(2)]
      show ?thesis by simp
    qed
    have "find (\<lambda>g. score g = score h \<and> hyp_key g = hyp_key h) ?xs = Some h"
      using find_conj_of_find[OF f, of "\<lambda>g. score g = score h"] by simp
    then have "find (\<lambda>g. hyp_key g = hyp_key h) (filter (\<lambda>g. - score g = - score h) ?xs) = Some h"
      by (simp add: find_filter)
    then have "find (\<lambda>g. hyp_key g = hyp_key h) (filter (\<lambda>g. - score g = - score h) hs) = Some h"
      unfolding sorted_by_score_desc_def sort_key_stable .
    then have "find (\<lambda>g. score g = score h \<and> hyp_key g = hyp_key h) hs = Some h"
      by (simp add: find_filter)
    with hin mx f show ?thesis by blast
  qed
  from d k s each show ?thesis by blast
qed


theorem remove_duplicate_hypotheses_max_witness:
  "remove_duplicate_hypotheses
     [\<lparr>score = - 7 / 2, y_sequence = [0], dec_state = (), dec_out = [()], timestep = [- 1],
       length_frames = 0, last_frame = 2, ngram_lm_state = None :: unit option\<rparr>,
      \<lparr>score = - 2, y_sequence = [0], dec_state = (), dec_out = [()], timestep = [- 1],
       length_frames = 0, last_frame = 2, ngram_lm_state = None\<rparr>]
   = [\<lparr>score = - 2, y_sequence = [0], dec_state = (), dec_out = [()], timestep = [- 1],
       length_frames = 0, last_frame = 2, ngram_lm_state = None\<rparr>]
   \<and> distinct (map hyp_key (remove_duplicate_hypotheses
     [\<lparr>score = - 7 / 2, y_sequence = [0], dec_state = (), dec_out = [()], timestep = [- 1],
       length_frames = 0, last_frame = 2, ngram_lm_state = None :: unit option\<rparr>,
      \<lparr>score = - 2, y_sequence = [0], dec_state = (), dec_out = [()], timestep = [- 1],
       length_frames = 0, last_frame = 2, ngram_lm_state = None\<rparr>]))"
  using remove_duplicate_hypotheses_max [of
     "[\<lparr>score = - 7 / 2, y_sequence = [0], dec_state = (), dec_out = [()], timestep = [- 1],
       length_frames = 0, last_frame = 2, ngram_lm_state = None :: unit option\<rparr>,
      \<lparr>score = - 2, y_sequence = [0], dec_state = (), dec_out = [()], timestep = [- 1],
       length_frames = 0, last_frame = 2, ngram_lm_state = None\<rparr>]"]
  by (simp add: remove_duplicate_hypotheses_def sorted_by_score_desc_def keep_if_new_def
      same_key_def)

subsection \<open>Construction\<close>

lemmas init_defs = init_def choose_search_algorithm_def maes_setup_def
  argmin_masked_zero_def lm_setup_def index_of_zero_def ex_env_def

lemma ex_self_init: "init ex_env ex_args = Inr ex_self"
  by (simp add: init_defs ex_args_def ex_self_def)

lemma ex_maes_self_init: "init ex_env ex_maes_args = Inr ex_maes_self"
  by (simp add: init_defs ex_maes_args_def ex_maes_self_def)

text \<open>
  Claim C9, as stated, fails: \<^const>\<open>ex_args\<close> asks for the default search with
  \<^verbatim>\<open>maes_num_steps = 1\<close>, one of the listed conditions, and construction returns the
  decoder \<^const>\<open>ex_self\<close>.
\<close>

theorem init_raises_counterexample:
  "spec_construction_fails ex_env ex_args \<and> init ex_env ex_args = Inr ex_self"
  by (simp add: spec_construction_fails_def init_defs ex_args_def ex_self_def)

lemma isl_choose_search_algorithm:
  "isl (choose_search_algorithm b s) \<longleftrightarrow> b \<noteq> 1 \<and> s \<notin> {''default'', ''maes''}"
  by (simp add: choose_search_algorithm_def)

lemma isl_maes_setup:
  "isl (maes_setup a) \<longleftrightarrow> arg_search_type a = ''maes'' \<and>
        (arg_maes_prefix_alpha a < 0
         \<or> arg_vocab_size a < arg_beam_size a + arg_maes_expansion_beta a
         \<or> arg_maes_num_steps a < 2)"
  by (simp add: maes_setup_def)

lemma argmin_masked_zero_None: "argmin_masked_zero ds = None \<longleftrightarrow> ds = []"
  by (simp add: argmin_masked_zero_def Let_def)

lemma isl_lm_setup:
  "isl (lm_setup env a) \<longleftrightarrow>
     (case arg_ngram_lm_model a of
        None \<Rightarrow> False
      | Some path \<Rightarrow>
          path \<noteq> [] \<and>
          (arg_search_type a \<noteq> ''maes'' \<or> \<not> kenlm_available env
           \<or> \<not> kenlm_loads env path))"
  by (simp add: lm_setup_def split: option.splits)

text \<open>
  Claim C9, amended. Construction raises exactly when: alignment preservation is
  requested; or the beam size is below 1; or the beam size is not 1 and the search type
  is neither \<^verbatim>\<open>default\<close> nor \<^verbatim>\<open>maes\<close>; or the search type is \<^verbatim>\<open>maes\<close> and the prefix
  alpha is negative, the vocabulary is smaller than beam size plus expansion beta, or
  the number of steps is below 2; or the duration table is empty; or a non-empty
  language model path is given and the search type is not \<^verbatim>\<open>maes\<close>, or the language
  model library is unavailable, or the library does not load the file at that path.
  The statement holds for every installation \<open>env\<close> and all arguments \<open>a\<close>.
\<close>

theorem init_raises_iff:
  "isl (init env a) \<longleftrightarrow> construction_raises env a"
proof -
  have "isl (init env a) \<longleftrightarrow>
      arg_preserve_alignments a \<or> arg_beam_size a < 1
    \<or> isl (choose_search_algorithm (arg_beam_size a) (arg_search_type a))
    \<or> isl (maes_setup a) \<or> argmin_masked_zero (arg_durations a) = None
    \<or> isl (lm_setup env a)"
    by (simp add: init_def split: sum.splits option.splits)
  then show ?thesis
    unfolding isl_choose_search_algorithm isl_maes_setup argmin_masked_zero_None isl_lm_setup
      construction_raises_def
    by blast
qed

theorem init_raises_iff_witness:
  "isl (init (ex_env\<lparr>kenlm_loads := (\<lambda>path. False)\<rparr>)
          (ex_maes_args\<lparr>arg_ngram_lm_model := Some ''lm.bin''\<rparr>))
   \<and> construction_raises (ex_env\<lparr>kenlm_loads := (\<lambda>path. False)\<rparr>)
          (ex_maes_args\<lparr>arg_ngram_lm_model := Some ''lm.bin''\<rparr>)
   \<and> \<not> isl (init ex_env (ex_maes_args\<lparr>arg_ngram_lm_model := Some ''lm.bin''\<rparr>))"
  using init_raises_iff [of "ex_env\<lparr>kenlm_loads := (\<lambda>path. False)\<rparr>"
                            "ex_maes_args\<lparr>arg_ngram_lm_model := Some ''lm.bin''\<rparr>"]
    init_raises_iff [of ex_env "ex_maes_args\<lparr>arg_ngram_lm_model := Some ''lm.bin''\<rparr>"]
  by (simp add: construction_raises_def ex_maes_args_def ex_env_def)

subsection \<open>A run of the default search\<close>

lemmas ex_defs = ex_self_def ex_nets_def start_hyp_def topk_def
  cartesian_sums_def nonblank_child_def blank_child_def nth_opt_def termination_check_def
  remove_duplicate_hypotheses_def sorted_by_score_desc_def sorted_by_score_def
  keep_if_new_def same_key_def py_take_def

text \<open>The first iteration at frame 0 under \<^const>\<open>ex_self\<close> and \<^const>\<open>ex_nets\<close>: token 0
  with duration 0 stays in the current frame, four hypotheses go to the future frames,
  and the loop is left by \<^verbatim>\<open>break\<close>.\<close>

lemma ex_iteration_0:
  "default_iteration ex_self ex_nets 1 0 ([start_hyp ex_self () [] None], [], ()) =
   Some
    (([\<lparr>score = - (27 / 10), y_sequence = [4, 0], dec_state = (), dec_out = [],
        timestep = [- 1, 0], length_frames = 1, last_frame = 0, ngram_lm_state = None\<rparr>],
      [\<lparr>score = - (9 / 5), y_sequence = [4], dec_state = (), dec_out = [],
        timestep = [- 1], length_frames = 1, last_frame = 2, ngram_lm_state = None\<rparr>,
       \<lparr>score = - (17 / 10), y_sequence = [4, 0], dec_state = (), dec_out = [],
        timestep = [- 1, 2], length_frames = 1, last_frame = 2, ngram_lm_state = None\<rparr>,
       \<lparr>score = - (3 / 2), y_sequence = [4], dec_state = (), dec_out = [],
        timestep = [- 1], length_frames = 1, last_frame = 1, ngram_lm_state = None\<rparr>,
       \<lparr>score = - (7 / 5), y_sequence = [4, 0], dec_state = (), dec_out = [],
        timestep = [- 1, 1], length_frames = 1, last_frame = 1, ngram_lm_state = None\<rparr>],
      ()),
     True)"
  by (simp add: default_iteration_def default_expand_def ex_defs)

lemma ex_default_frame_0:
  "default_frame ex_self ex_nets 1 0 ([start_hyp ex_self () [] None], ()) =
   Some
     ([\<lparr>score = - (9 / 5), y_sequence = [4], dec_state = (), dec_out = [],
        timestep = [- 1], length_frames = 1, last_frame = 2, ngram_lm_state = None\<rparr>,
       \<lparr>score = - (17 / 10), y_sequence = [4, 0], dec_state = (), dec_out = [],
        timestep = [- 1, 2], length_frames = 1, last_frame = 2, ngram_lm_state = None\<rparr>,
       \<lparr>score = - (3 / 2), y_sequence = [4], dec_state = (), dec_out = [],
        timestep = [- 1], length_frames = 1, last_frame = 1, ngram_lm_state = None\<rparr>,
       \<lparr>score = - (7 / 5), y_sequence = [4, 0], dec_state = (), dec_out = [],
        timestep = [- 1, 1], length_frames = 1, last_frame = 1, ngram_lm_state = None\<rparr>],
      ())"
proof -
  have f: "filter (\<lambda>hyp. last_frame hyp = 0) [start_hyp ex_self () [] None]
             = [start_hyp ex_self () [] None]"
    "filter (\<lambda>hyp. 0 < last_frame hyp) [start_hyp ex_self () [] None] = []"
    by (simp_all add: start_hyp_def)
  have nonempty:
    "fst ([start_hyp ex_self () [] None], [] :: (unit, unit, unit) hypothesis list, ()) \<noteq> []"
    by simp
  show ?thesis
    unfolding default_frame_def
    apply (simp only: prod.case Let_def f)
    apply (subst default_while.simps)
    apply (simp only: nonempty if_False ex_iteration_0 Option.bind.simps snd_conv fst_conv
        if_True option.map)
    apply simp
    done
qed

lemma ex_default_search_1:
  "default_beam_search ex_self ex_nets 1 =
   Some
     [\<lparr>score = - (7 / 5), y_sequence = [4, 0], dec_state = (), dec_out = [],
        timestep = [- 1, 1], length_frames = 1, last_frame = 1, ngram_lm_state = None\<rparr>,
      \<lparr>score = - (3 / 2), y_sequence = [4], dec_state = (), dec_out = [],
        timestep = [- 1], length_frames = 1, last_frame = 1, ngram_lm_state = None\<rparr>,
      \<lparr>score = - (17 / 10), y_sequence = [4, 0], dec_state = (), dec_out = [],
        timestep = [- 1, 2], length_frames = 1, last_frame = 2, ngram_lm_state = None\<rparr>,
      \<lparr>score = - (9 / 5), y_sequence = [4], dec_state = (), dec_out = [],
        timestep = [- 1], length_frames = 1, last_frame = 2, ngram_lm_state = None\<rparr>]"
proof -
  have n: "initialize_state ex_nets = ()" "fresh_cache ex_nets = ()"
    by (simp_all add: ex_nets_def)
  have u: "[0 ..< (1::nat)] = [0]" by simp
  show ?thesis
    unfolding default_beam_search_def n u
    apply (simp only: default_frames.simps ex_default_frame_0 Option.bind.simps prod.case)
    apply (simp add: sort_nbest_def ex_self_def sorted_by_score_desc_def)
    done
qed

subsection \<open>The entry point\<close>

lemma ex_greedy_init:
  "init ex_env (ex_args\<lparr>arg_beam_size := 1\<rparr>) =
   Inr (ex_self\<lparr>beam_size := 1, max_candidates := 1, search_algorithm := Greedy_search\<rparr>)"
  by (simp add: init_defs ex_args_def ex_self_def)




subsection \<open>The termination check of the default search\<close>


lemma foldl_max_by:
  "foldl (\<lambda>best y. if f best < f y then y else best) b ys \<in> set (b # ys)
   \<and> f (foldl (\<lambda>best y. if f best < f y then y else best) b ys) = Max (f ` set (b # ys))"
proof (induction ys arbitrary: b)
  case Nil
  then show ?case by simp
next
  case (Cons y ys)
  let ?b = "if f b < f y then y else b"
  have IH: "foldl (\<lambda>best y. if f best < f y then y else best) ?b ys \<in> set (?b # ys)"
    "f (foldl (\<lambda>best y. if f best < f y then y else best) ?b ys) = Max (f ` set (?b # ys))"
    using Cons.IH[of ?b] by blast+
  have m: "Max (f ` set (?b # ys)) = Max (f ` set (b # y # ys))"
  proof (cases "ys = []")
    case True
    then show ?thesis by (auto simp: max_def)
  next
    case False
    then have ne: "f ` set ys \<noteq> {}" by simp
    have "Max (insert (f ?b) (f ` set ys)) = max (f ?b) (Max (f ` set ys))"
      using ne by simp
    moreover have "Max (insert (f b) (insert (f y) (f ` set ys))) = max (f b) (max (f y) (Max (f ` set ys)))"
      using ne by simp
    ultimately show ?thesis by (auto simp: max_def)
  qed
  show ?case using IH m by (auto split: if_splits)
qed

lemma max_by_Some:
  "xs \<noteq> [] \<Longrightarrow> \<exists>m. max_by f xs = Some m \<and> m \<in> set xs \<and> f m = Max (f ` set xs)"
  using foldl_max_by[of f "hd xs" "tl xs"] by (cases xs) auto

lemma max_by_None: "max_by f xs = None \<longleftrightarrow> xs = []"
  by (cases xs) auto

text \<open>
  Claim C3, as stated, fails. With beam 3, one hypothesis left in the current frame
  and four future hypotheses of greater score (the state that \<open>ex_iteration_0\<close>
  reaches before the check), the check leaves the loop and keeps all four hypotheses,
  in ascending order of score, not the best three.
\<close>

theorem termination_check_counterexample:
  "beam_of ex_self = 3 \<and>
   termination_check (beam_of ex_self)
     [\<lparr>score = - (27 / 10), y_sequence = [4, 0], dec_state = (), dec_out = [],
       timestep = [- 1, 0], length_frames = 1, last_frame = 0, ngram_lm_state = None :: unit option\<rparr>]
     [\<lparr>score = - (7 / 5), y_sequence = [4, 0], dec_state = (), dec_out = [],
       timestep = [- 1, 1], length_frames = 1, last_frame = 1, ngram_lm_state = None\<rparr>,
      \<lparr>score = - (3 / 2), y_sequence = [4], dec_state = (), dec_out = [],
       timestep = [- 1], length_frames = 1, last_frame = 1, ngram_lm_state = None\<rparr>,
      \<lparr>score = - (17 / 10), y_sequence = [4, 0], dec_state = (), dec_out = [],
       timestep = [- 1, 2], length_frames = 1, last_frame = 2, ngram_lm_state = None\<rparr>,
      \<lparr>score = - (9 / 5), y_sequence = [4], dec_state = (), dec_out = [],
       timestep = [- 1], length_frames = 1, last_frame = 2, ngram_lm_state = None\<rparr>]
   = ([\<lparr>score = - (9 / 5), y_sequence = [4], dec_state = (), dec_out = [],
       timestep = [- 1], length_frames = 1, last_frame = 2, ngram_lm_state = None\<rparr>,
      \<lparr>score = - (17 / 10), y_sequence = [4, 0], dec_state = (), dec_out = [],
       timestep = [- 1, 2], length_frames = 1, last_frame = 2, ngram_lm_state = None\<rparr>,
      \<lparr>score = - (3 / 2), y_sequence = [4], dec_state = (), dec_out = [],
       timestep = [- 1], length_frames = 1, last_frame = 1, ngram_lm_state = None\<rparr>,
      \<lparr>score = - (7 / 5), y_sequence = [4, 0], dec_state = (), dec_out = [],
       timestep = [- 1, 1], length_frames = 1, last_frame = 1, ngram_lm_state = None\<rparr>], True)"
  by (simp add: beam_of_def ex_self_def termination_check_def sorted_by_score_def)

lemma default_iteration_nonempty:
  "default_iteration self nets L t state = Some r \<Longrightarrow> fst state \<noteq> []"
  by (cases state)
     (auto simp: default_iteration_def default_expand_def Let_def max_by_None
           split: Option.bind_splits)

lemma default_expand_nonempty:
  "default_expand self nets L t state = Some r \<Longrightarrow> fst state \<noteq> []"
  by (cases state)
     (auto simp: default_expand_def Let_def max_by_None split: Option.bind_splits)

lemma default_iteration_expand:
  assumes e: "default_expand self nets L t state = Some (hyps, kept_hyps, w)"
  shows "default_iteration self nets L t state =
           Some ((hyps, fst (termination_check (beam_of self) hyps kept_hyps), w),
                 snd (termination_check (beam_of self) hyps kept_hyps))"
  by (simp add: default_iteration_def e beam_of_def Let_def split: prod.splits)

lemma termination_check_nonempty:
  assumes hne: "hyps \<noteq> []"
  shows "termination_check beam hyps kept_hyps =
        (if beam \<le> int (length (qualifying hyps kept_hyps))
         then (sorted_by_score (qualifying hyps kept_hyps), True)
         else (kept_hyps, False))"
proof -
  obtain m where m: "max_by score hyps = Some m" "score m = Max (score ` set hyps)"
    using max_by_Some[OF hne, of score] by blast
  show ?thesis
    by (simp add: termination_check_def m qualifying_def Let_def sorted_by_score_def)
qed

text \<open>The expansion of the start hypothesis at frame 0 under \<^const>\<open>ex_nets\<close> and under
  \<^const>\<open>ex_nets_zero\<close>, before the check.\<close>

lemma ex_expand_0:
  "default_expand ex_self ex_nets 1 0 ([start_hyp ex_self () [] None], [], ()) =
   Some
     ([\<lparr>score = - (27 / 10), y_sequence = [4, 0], dec_state = (), dec_out = [],
        timestep = [- 1, 0], length_frames = 1, last_frame = 0, ngram_lm_state = None :: unit option\<rparr>],
      [\<lparr>score = - (7 / 5), y_sequence = [4, 0], dec_state = (), dec_out = [],
        timestep = [- 1, 1], length_frames = 1, last_frame = 1, ngram_lm_state = None :: unit option\<rparr>,
       \<lparr>score = - (3 / 2), y_sequence = [4], dec_state = (), dec_out = [],
        timestep = [- 1], length_frames = 1, last_frame = 1, ngram_lm_state = None\<rparr>,
       \<lparr>score = - (17 / 10), y_sequence = [4, 0], dec_state = (), dec_out = [],
        timestep = [- 1, 2], length_frames = 1, last_frame = 2, ngram_lm_state = None\<rparr>,
       \<lparr>score = - (9 / 5), y_sequence = [4], dec_state = (), dec_out = [],
        timestep = [- 1], length_frames = 1, last_frame = 2, ngram_lm_state = None\<rparr>],
      ())"
  by (simp add: default_expand_def ex_defs)

lemma ex_expand_zero_0:
  "default_expand ex_self ex_nets_zero 1 0 ([start_hyp ex_self () [] None], [], ()) =
   Some
     ([\<lparr>score = - (7 / 5), y_sequence = [4, 0], dec_state = (), dec_out = [],
        timestep = [- 1, 0], length_frames = 1, last_frame = 0, ngram_lm_state = None :: unit option\<rparr>],
      [\<lparr>score = - (17 / 10), y_sequence = [4, 0], dec_state = (), dec_out = [],
        timestep = [- 1, 1], length_frames = 1, last_frame = 1, ngram_lm_state = None :: unit option\<rparr>,
       \<lparr>score = - (9 / 5), y_sequence = [4], dec_state = (), dec_out = [],
        timestep = [- 1], length_frames = 1, last_frame = 1, ngram_lm_state = None\<rparr>,
       \<lparr>score = - (27 / 10), y_sequence = [4, 0], dec_state = (), dec_out = [],
        timestep = [- 1, 2], length_frames = 1, last_frame = 2, ngram_lm_state = None\<rparr>,
       \<lparr>score = - (14 / 5), y_sequence = [4], dec_state = (), dec_out = [],
        timestep = [- 1], length_frames = 1, last_frame = 2, ngram_lm_state = None\<rparr>],
      ())"
  by (simp add: default_expand_def ex_defs ex_nets_zero_def)

text \<open>
  Claim C3, amended. Take an iteration of the inner loop of the default search whose
  expansion, after the removal of duplicates, leaves the current frame with the
  hypotheses \<open>hyps\<close>, not empty, and the future frames with \<open>kept_hyps\<close>; let \<open>s\<close>
  be the greatest score in \<open>hyps\<close> and \<open>B = min(beam_size, V)\<close>. If at least \<open>B\<close>
  hypotheses of \<open>kept_hyps\<close> have a score strictly greater than \<open>s\<close>, the iteration
  ends by \<^verbatim>\<open>break\<close>, the inner loop returns, and the future list is all of those
  hypotheses, sorted by ascending score. Otherwise the future list is unchanged and
  the loop goes on from \<open>hyps\<close> and \<open>kept_hyps\<close>. A future hypothesis whose score
  equals \<open>s\<close> is not counted.
\<close>

theorem termination_check_keeps_qualifying:
  "default_expand self nets encoded_lengths time_idx state = Some (hyps, kept_hyps, w)
     \<and> hyps \<noteq> [] \<longrightarrow>
   (if beam_of self \<le> int (length (qualifying hyps kept_hyps))
    then default_iteration self nets encoded_lengths time_idx state
           = Some ((hyps, sorted_by_score (qualifying hyps kept_hyps), w), True)
         \<and> default_while self nets encoded_lengths time_idx state
           = Some (hyps, sorted_by_score (qualifying hyps kept_hyps), w)
    else default_iteration self nets encoded_lengths time_idx state
           = Some ((hyps, kept_hyps, w), False)
         \<and> default_while self nets encoded_lengths time_idx state
           = default_while self nets encoded_lengths time_idx (hyps, kept_hyps, w))"
proof (intro impI, elim conjE)
  assume e: "default_expand self nets encoded_lengths time_idx state = Some (hyps, kept_hyps, w)"
    and hne: "hyps \<noteq> []"
  have ne: "fst state \<noteq> []" using default_expand_nonempty[OF e] .
  note it = default_iteration_expand[OF e, unfolded termination_check_nonempty[OF hne]]
  show "if beam_of self \<le> int (length (qualifying hyps kept_hyps))
    then default_iteration self nets encoded_lengths time_idx state
           = Some ((hyps, sorted_by_score (qualifying hyps kept_hyps), w), True)
         \<and> default_while self nets encoded_lengths time_idx state
           = Some (hyps, sorted_by_score (qualifying hyps kept_hyps), w)
    else default_iteration self nets encoded_lengths time_idx state
           = Some ((hyps, kept_hyps, w), False)
         \<and> default_while self nets encoded_lengths time_idx state
           = default_while self nets encoded_lengths time_idx (hyps, kept_hyps, w)"
  proof (cases "beam_of self \<le> int (length (qualifying hyps kept_hyps))")
    case True
    with it have i: "default_iteration self nets encoded_lengths time_idx state
           = Some ((hyps, sorted_by_score (qualifying hyps kept_hyps), w), True)" by simp
    have "default_while self nets encoded_lengths time_idx state
           = Some (hyps, sorted_by_score (qualifying hyps kept_hyps), w)"
      by (subst default_while.simps) (simp add: ne i)
    with i True show ?thesis by simp
  next
    case False
    with it have i: "default_iteration self nets encoded_lengths time_idx state
           = Some ((hyps, kept_hyps, w), False)" by simp
    have "default_while self nets encoded_lengths time_idx state
           = default_while self nets encoded_lengths time_idx (hyps, kept_hyps, w)"
      by (subst default_while.simps) (simp add: ne i)
    with i False show ?thesis by simp
  qed
qed

text \<open>Under \<^const>\<open>ex_nets\<close> four future hypotheses beat the one left in the frame, and
  with beam 3 the loop returns all four. Under \<^const>\<open>ex_nets_zero\<close> none does, the
  future list stays as it is and the loop goes on.\<close>

theorem termination_check_keeps_qualifying_witness:
  "default_while ex_self ex_nets 1 0 ([start_hyp ex_self () [] None], [], ()) =
     Some
      ([\<lparr>score = - (27 / 10), y_sequence = [4, 0], dec_state = (), dec_out = [],
        timestep = [- 1, 0], length_frames = 1, last_frame = 0, ngram_lm_state = None :: unit option\<rparr>],
       [\<lparr>score = - (9 / 5), y_sequence = [4], dec_state = (), dec_out = [],
        timestep = [- 1], length_frames = 1, last_frame = 2, ngram_lm_state = None :: unit option\<rparr>,
       \<lparr>score = - (17 / 10), y_sequence = [4, 0], dec_state = (), dec_out = [],
        timestep = [- 1, 2], length_frames = 1, last_frame = 2, ngram_lm_state = None\<rparr>,
       \<lparr>score = - (3 / 2), y_sequence = [4], dec_state = (), dec_out = [],
        timestep = [- 1], length_frames = 1, last_frame = 1, ngram_lm_state = None\<rparr>,
       \<lparr>score = - (7 / 5), y_sequence = [4, 0], dec_state = (), dec_out = [],
        timestep = [- 1, 1], length_frames = 1, last_frame = 1, ngram_lm_state = None\<rparr>],
       ())
   \<and> default_iteration ex_self ex_nets_zero 1 0 ([start_hyp ex_self () [] None], [], ()) =
     Some
      (([\<lparr>score = - (7 / 5), y_sequence = [4, 0], dec_state = (), dec_out = [],
        timestep = [- 1, 0], length_frames = 1, last_frame = 0, ngram_lm_state = None :: unit option\<rparr>],
        [\<lparr>score = - (17 / 10), y_sequence = [4, 0], dec_state = (), dec_out = [],
        timestep = [- 1, 1], length_frames = 1, last_frame = 1, ngram_lm_state = None :: unit option\<rparr>,
       \<lparr>score = - (9 / 5), y_sequence = [4], dec_state = (), dec_out = [],
        timestep = [- 1], length_frames = 1, last_frame = 1, ngram_lm_state = None\<rparr>,
       \<lparr>score = - (27 / 10), y_sequence = [4, 0], dec_state = (), dec_out = [],
        timestep = [- 1, 2], length_frames = 1, last_frame = 2, ngram_lm_state = None\<rparr>,
       \<lparr>score = - (14 / 5), y_sequence = [4], dec_state = (), dec_out = [],
        timestep = [- 1], length_frames = 1, last_frame = 2, ngram_lm_state = None\<rparr>],
        ()), False)
   \<and> default_while ex_self ex_nets_zero 1 0 ([start_hyp ex_self () [] None], [], ()) =
     default_while ex_self ex_nets_zero 1 0
      ([\<lparr>score = - (7 / 5), y_sequence = [4, 0], dec_state = (), dec_out = [],
        timestep = [- 1, 0], length_frames = 1, last_frame = 0, ngram_lm_state = None :: unit option\<rparr>],
       [\<lparr>score = - (17 / 10), y_sequence = [4, 0], dec_state = (), dec_out = [],
        timestep = [- 1, 1], length_frames = 1, last_frame = 1, ngram_lm_state = None :: unit option\<rparr>,
       \<lparr>score = - (9 / 5), y_sequence = [4], dec_state = (), dec_out = [],
        timestep = [- 1], length_frames = 1, last_frame = 1, ngram_lm_state = None\<rparr>,
       \<lparr>score = - (27 / 10), y_sequence = [4, 0], dec_state = (), dec_out = [],
        timestep = [- 1, 2], length_frames = 1, last_frame = 2, ngram_lm_state = None\<rparr>,
       \<lparr>score = - (14 / 5), y_sequence = [4], dec_state = (), dec_out = [],
        timestep = [- 1], length_frames = 1, last_frame = 2, ngram_lm_state = None\<rparr>],
       ())"
proof -
  let ?H = "[\<lparr>score = - (27 / 10), y_sequence = [4, 0], dec_state = (), dec_out = [],
        timestep = [- 1, 0], length_frames = 1, last_frame = 0, ngram_lm_state = None :: unit option\<rparr>]"
  let ?K = "[\<lparr>score = - (7 / 5), y_sequence = [4, 0], dec_state = (), dec_out = [],
        timestep = [- 1, 1], length_frames = 1, last_frame = 1, ngram_lm_state = None :: unit option\<rparr>,
       \<lparr>score = - (3 / 2), y_sequence = [4], dec_state = (), dec_out = [],
        timestep = [- 1], length_frames = 1, last_frame = 1, ngram_lm_state = None\<rparr>,
       \<lparr>score = - (17 / 10), y_sequence = [4, 0], dec_state = (), dec_out = [],
        timestep = [- 1, 2], length_frames = 1, last_frame = 2, ngram_lm_state = None\<rparr>,
       \<lparr>score = - (9 / 5), y_sequence = [4], dec_state = (), dec_out = [],
        timestep = [- 1], length_frames = 1, last_frame = 2, ngram_lm_state = None\<rparr>]"
  let ?HZ = "[\<lparr>score = - (7 / 5), y_sequence = [4, 0], dec_state = (), dec_out = [],
        timestep = [- 1, 0], length_frames = 1, last_frame = 0, ngram_lm_state = None :: unit option\<rparr>]"
  let ?KZ = "[\<lparr>score = - (17 / 10), y_sequence = [4, 0], dec_state = (), dec_out = [],
        timestep = [- 1, 1], length_frames = 1, last_frame = 1, ngram_lm_state = None :: unit option\<rparr>,
       \<lparr>score = - (9 / 5), y_sequence = [4], dec_state = (), dec_out = [],
        timestep = [- 1], length_frames = 1, last_frame = 1, ngram_lm_state = None\<rparr>,
       \<lparr>score = - (27 / 10), y_sequence = [4, 0], dec_state = (), dec_out = [],
        timestep = [- 1, 2], length_frames = 1, last_frame = 2, ngram_lm_state = None\<rparr>,
       \<lparr>score = - (14 / 5), y_sequence = [4], dec_state = (), dec_out = [],
        timestep = [- 1], length_frames = 1, last_frame = 2, ngram_lm_state = None\<rparr>]"
  have b: "beam_of ex_self = 3" by (simp add: beam_of_def ex_self_def)
  have q: "sorted_by_score (qualifying ?H ?K) =
      [\<lparr>score = - (9 / 5), y_sequence = [4], dec_state = (), dec_out = [],
        timestep = [- 1], length_frames = 1, last_frame = 2, ngram_lm_state = None :: unit option\<rparr>,
       \<lparr>score = - (17 / 10), y_sequence = [4, 0], dec_state = (), dec_out = [],
        timestep = [- 1, 2], length_frames = 1, last_frame = 2, ngram_lm_state = None\<rparr>,
       \<lparr>score = - (3 / 2), y_sequence = [4], dec_state = (), dec_out = [],
        timestep = [- 1], length_frames = 1, last_frame = 1, ngram_lm_state = None\<rparr>,
       \<lparr>score = - (7 / 5), y_sequence = [4, 0], dec_state = (), dec_out = [],
        timestep = [- 1, 1], length_frames = 1, last_frame = 1, ngram_lm_state = None\<rparr>]"
    by (simp add: qualifying_def sorted_by_score_def)
  have c: "beam_of ex_self \<le> int (length (qualifying ?H ?K))"
    unfolding b by (simp add: qualifying_def)
  have cz: "\<not> beam_of ex_self \<le> int (length (qualifying ?HZ ?KZ))"
    unfolding b by (simp add: qualifying_def)
  have p: "default_expand ex_self ex_nets 1 0 ([start_hyp ex_self () [] None], [], ()) = Some (?H, ?K, ()) \<and> ?H \<noteq> []"
    by (rule conjI[OF ex_expand_0]) simp
  have pz: "default_expand ex_self ex_nets_zero 1 0 ([start_hyp ex_self () [] None], [], ()) = Some (?HZ, ?KZ, ())
     \<and> ?HZ \<noteq> []"
    by (rule conjI[OF ex_expand_zero_0]) simp
  note A = termination_check_keeps_qualifying
             [of ex_self ex_nets 1 0 "([start_hyp ex_self () [] None], [], ())" ?H ?K "()", rule_format, OF p,
              unfolded if_P[OF c] q]
  note B = termination_check_keeps_qualifying
             [of ex_self ex_nets_zero 1 0 "([start_hyp ex_self () [] None], [], ())" ?HZ ?KZ "()", rule_format, OF pz,
              unfolded if_not_P[OF cz]]
  from A B show ?thesis by blast
qed

subsection \<open>Expansion selector\<close>



lemma set_hyp_i_candidates:
  "set (hyp_i_candidates s idxs logps didxs dlogps) =
   (\<lambda>((idx, logp), (didx, dlogp)). (idx, didx, s + (logp + dlogp))) `
     (set (zip idxs logps) \<times> set (zip didxs dlogps))"
  by (force simp: hyp_i_candidates_def)

lemma length_concat_const:
  "(\<And>x. x \<in> set xs \<Longrightarrow> length (f x) = n) \<Longrightarrow> length (concat (map f xs)) = length xs * n"
  by (induction xs) auto

lemma length_hyp_i_candidates:
  "length (hyp_i_candidates s idxs logps didxs dlogps) =
   length (zip idxs logps) * length (zip didxs dlogps)"
  unfolding hyp_i_candidates_def
  by (rule length_concat_const) (auto simp del: length_zip)

lemma prune_by_value_Some:
  assumes "hyp_i \<noteq> []"
  shows "prune_by_value gamma hyp_i =
    Some (sort_key cand_score
           (filter (\<lambda>x. Max (cand_score ` set hyp_i) - gamma \<le> cand_score x) hyp_i))"
proof -
  obtain m where m: "max_by cand_score hyp_i = Some m" "cand_score m = Max (cand_score ` set hyp_i)"
    using max_by_Some[OF assms, of cand_score] by blast
  show ?thesis by (simp add: prune_by_value_def m)
qed

lemma prune_by_value_None: "prune_by_value gamma [] = None"
  by (simp add: prune_by_value_def)

lemma argmax_retained:
  assumes "hyp_i \<noteq> []" "0 \<le> gamma"
  shows "\<exists>c \<in> set (filter (\<lambda>x. Max (cand_score ` set hyp_i) - gamma \<le> cand_score x) hyp_i).
           cand_score c = Max (cand_score ` set hyp_i)"
proof -
  have "Max (cand_score ` set hyp_i) \<in> cand_score ` set hyp_i"
    using assms(1) by (intro Max_in) auto
  then obtain c where "c \<in> set hyp_i" "cand_score c = Max (cand_score ` set hyp_i)" by auto
  then have "c \<in> set (filter (\<lambda>x. Max (cand_score ` set hyp_i) - gamma \<le> cand_score x) hyp_i)"
    using assms(2) by simp
  with \<open>cand_score c = Max (cand_score ` set hyp_i)\<close> show ?thesis by blast
qed

lemma select_from_rows:
  assumes "\<forall>j < length hyps. i + j < length A \<and> i + j < length B \<and> i + j < length C
             \<and> i + j < length D
             \<and> hyp_i_candidates (score (hyps ! j)) (A ! (i + j)) (B ! (i + j)) (C ! (i + j)) (D ! (i + j)) \<noteq> []"
  shows "select_k_expansions_from i hyps A B C D gamma =
    Some (map (\<lambda>j. let hyp_i = hyp_i_candidates (score (hyps ! j)) (A ! (i + j)) (B ! (i + j))
                                   (C ! (i + j)) (D ! (i + j))
                    in sort_key cand_score
                         (filter (\<lambda>x. Max (cand_score ` set hyp_i) - gamma \<le> cand_score x) hyp_i))
              [0 ..< length hyps])"
  using assms
proof (induction hyps arbitrary: i)
  case Nil
  then show ?case by simp
next
  case (Cons h hs)
  from Cons.prems have h0: "i < length A" "i < length B" "i < length C" "i < length D"
    "hyp_i_candidates (score h) (A ! i) (B ! i) (C ! i) (D ! i) \<noteq> []"
    by force+
  have rest: "\<forall>j < length hs. Suc i + j < length A \<and> Suc i + j < length B \<and> Suc i + j < length C
             \<and> Suc i + j < length D
             \<and> hyp_i_candidates (score (hs ! j)) (A ! (Suc i + j)) (B ! (Suc i + j)) (C ! (Suc i + j)) (D ! (Suc i + j)) \<noteq> []"
  proof (intro allI impI)
    fix j assume "j < length hs"
    then have "Suc j < length (h # hs)" by simp
    from Cons.prems[rule_format, OF this] show "Suc i + j < length A \<and> Suc i + j < length B \<and> Suc i + j < length C
             \<and> Suc i + j < length D
             \<and> hyp_i_candidates (score (hs ! j)) (A ! (Suc i + j)) (B ! (Suc i + j)) (C ! (Suc i + j)) (D ! (Suc i + j)) \<noteq> []"
      by simp
  qed
  have u: "[0 ..< length (h # hs)] = 0 # map Suc [0 ..< length hs]"
    by (simp add: upt_conv_Cons map_Suc_upt del: upt_Suc)
  show ?case
    unfolding u
    by (simp add: h0 nth_opt_def prune_by_value_Some[OF h0(5)] Cons.IH[OF rest] Let_def o_def)
qed


lemma hyp_i_candidates_nonempty:
  "idxs \<noteq> [] \<Longrightarrow> logps \<noteq> [] \<Longrightarrow> didxs \<noteq> [] \<Longrightarrow> dlogps \<noteq> [] \<Longrightarrow>
   hyp_i_candidates s idxs logps didxs dlogps \<noteq> []"
proof -
  assume a: "idxs \<noteq> []" "logps \<noteq> []" "didxs \<noteq> []" "dlogps \<noteq> []"
  have "0 < length (zip idxs logps) * length (zip didxs dlogps)" using a by simp
  then have "0 < length (hyp_i_candidates s idxs logps didxs dlogps)"
    by (simp only: length_hyp_i_candidates)
  then show ?thesis by blast
qed

text \<open>
  Claim C5. Let every hypothesis have its row in the four top-k tensors, none of them
  empty. Then the expansion selector returns one list per hypothesis. The candidates of
  a hypothesis are the pairs of a (token, log-probability) entry and a (duration,
  log-probability) entry, each scored as the hypothesis score plus the two
  log-probabilities; with \<open>M\<close> the greatest candidate score, the returned list holds
  exactly the candidates of score at least \<open>M - gamma\<close>, each as often as it occurs,
  in ascending order of score; and for a non-negative \<open>gamma\<close> a candidate of score
  \<open>M\<close> is among them.
\<close>

theorem select_k_expansions_durations_prunes:
  assumes rows: "\<forall>j < length hyps.
      j < length topk_idxs \<and> j < length topk_logps
    \<and> j < length topk_duration_idxs \<and> j < length topk_duration_logps
    \<and> topk_idxs ! j \<noteq> [] \<and> topk_logps ! j \<noteq> []
    \<and> topk_duration_idxs ! j \<noteq> [] \<and> topk_duration_logps ! j \<noteq> []"
  shows "\<exists>k_expansions.
      select_k_expansions_durations hyps topk_idxs topk_logps topk_duration_idxs
        topk_duration_logps gamma = Some k_expansions
    \<and> length k_expansions = length hyps
    \<and> (\<forall>j < length hyps.
          let hyp_i = hyp_i_candidates (score (hyps ! j)) (topk_idxs ! j) (topk_logps ! j)
                        (topk_duration_idxs ! j) (topk_duration_logps ! j);
              M = Max (cand_score ` set hyp_i)
          in set hyp_i =
               (\<lambda>((idx, logp), (duration_idx, duration_logp)).
                   (idx, duration_idx, score (hyps ! j) + (logp + duration_logp))) `
                 (set (zip (topk_idxs ! j) (topk_logps ! j))
                  \<times> set (zip (topk_duration_idxs ! j) (topk_duration_logps ! j)))
           \<and> length hyp_i =
               length (zip (topk_idxs ! j) (topk_logps ! j))
               * length (zip (topk_duration_idxs ! j) (topk_duration_logps ! j))
           \<and> mset (k_expansions ! j) = filter_mset (\<lambda>x. M - gamma \<le> cand_score x) (mset hyp_i)
           \<and> sorted (map cand_score (k_expansions ! j))
           \<and> (0 \<le> gamma \<longrightarrow> (\<exists>x \<in> set (k_expansions ! j). cand_score x = M)))"
proof -
  let ?cands = "\<lambda>j. hyp_i_candidates (score (hyps ! j)) (topk_idxs ! j) (topk_logps ! j)
                        (topk_duration_idxs ! j) (topk_duration_logps ! j)"
  let ?out = "\<lambda>j. sort_key cand_score
                 (filter (\<lambda>x. Max (cand_score ` set (?cands j)) - gamma \<le> cand_score x) (?cands j))"
  have ne: "?cands j \<noteq> []" if "j < length hyps" for j
    using rows[rule_format, OF that] by (intro hyp_i_candidates_nonempty) auto
  have pre: "\<forall>j < length hyps. 0 + j < length topk_idxs \<and> 0 + j < length topk_logps
      \<and> 0 + j < length topk_duration_idxs \<and> 0 + j < length topk_duration_logps
      \<and> hyp_i_candidates (score (hyps ! j)) (topk_idxs ! (0 + j)) (topk_logps ! (0 + j))
            (topk_duration_idxs ! (0 + j)) (topk_duration_logps ! (0 + j)) \<noteq> []"
    using rows ne by simp
  have sel: "select_k_expansions_durations hyps topk_idxs topk_logps topk_duration_idxs
        topk_duration_logps gamma = Some (map ?out [0 ..< length hyps])"
    unfolding select_k_expansions_durations_def select_from_rows[OF pre]
    by (simp add: Let_def)
  have each: "set (?cands j) =
               (\<lambda>((idx, logp), (duration_idx, duration_logp)).
                   (idx, duration_idx, score (hyps ! j) + (logp + duration_logp))) `
                 (set (zip (topk_idxs ! j) (topk_logps ! j))
                  \<times> set (zip (topk_duration_idxs ! j) (topk_duration_logps ! j)))
           \<and> length (?cands j) =
               length (zip (topk_idxs ! j) (topk_logps ! j))
               * length (zip (topk_duration_idxs ! j) (topk_duration_logps ! j))
           \<and> mset (map ?out [0 ..< length hyps] ! j)
               = filter_mset (\<lambda>x. Max (cand_score ` set (?cands j)) - gamma \<le> cand_score x)
                   (mset (?cands j))
           \<and> sorted (map cand_score (map ?out [0 ..< length hyps] ! j))
           \<and> (0 \<le> gamma \<longrightarrow>
                (\<exists>x \<in> set (map ?out [0 ..< length hyps] ! j).
                    cand_score x = Max (cand_score ` set (?cands j))))"
    if j: "j < length hyps" for j
  proof -
    have o: "map ?out [0 ..< length hyps] ! j = ?out j" using j by simp
    have r: "0 \<le> gamma \<longrightarrow> (\<exists>x \<in> set (?out j). cand_score x = Max (cand_score ` set (?cands j)))"
      using argmax_retained[OF ne[OF j]] by simp
    show ?thesis
      unfolding o
      using r by (simp only: set_hyp_i_candidates length_hyp_i_candidates mset_sort mset_filter
          sorted_sort_key simp_thms)
  qed
  show ?thesis
  proof (intro exI[of _ "map ?out [0 ..< length hyps]"] conjI)
    show "select_k_expansions_durations hyps topk_idxs topk_logps topk_duration_idxs
        topk_duration_logps gamma = Some (map ?out [0 ..< length hyps])"
      by (rule sel)
    show "length (map ?out [0 ..< length hyps]) = length hyps" by simp
    show "\<forall>j < length hyps.
          let hyp_i = hyp_i_candidates (score (hyps ! j)) (topk_idxs ! j) (topk_logps ! j)
                        (topk_duration_idxs ! j) (topk_duration_logps ! j);
              M = Max (cand_score ` set hyp_i)
          in set hyp_i =
               (\<lambda>((idx, logp), (duration_idx, duration_logp)).
                   (idx, duration_idx, score (hyps ! j) + (logp + duration_logp))) `
                 (set (zip (topk_idxs ! j) (topk_logps ! j))
                  \<times> set (zip (topk_duration_idxs ! j) (topk_duration_logps ! j)))
           \<and> length hyp_i =
               length (zip (topk_idxs ! j) (topk_logps ! j))
               * length (zip (topk_duration_idxs ! j) (topk_duration_logps ! j))
           \<and> mset (map ?out [0 ..< length hyps] ! j)
               = filter_mset (\<lambda>x. M - gamma \<le> cand_score x) (mset hyp_i)
           \<and> sorted (map cand_score (map ?out [0 ..< length hyps] ! j))
           \<and> (0 \<le> gamma \<longrightarrow>
                (\<exists>x \<in> set (map ?out [0 ..< length hyps] ! j). cand_score x = M))"
      unfolding Let_def using each by blast
  qed
qed


theorem select_k_expansions_durations_prunes_witness:
  "select_k_expansions_durations [start_hyp ex_maes_self () [()] (None :: unit option)]
     [[0, 4]] [[- 7 / 10, - 4 / 5]] [[1, 2]] [[- 7 / 10, - 1]] (3 / 10)
   = Some [[(0, 2, - 17 / 10), (4, 1, - 3 / 2), (0, 1, - 7 / 5)]]
   \<and> sorted (map cand_score [(0, 2, - 17 / 10), (4, 1, - 3 / 2), (0, 1, - 7 / 5)])"
proof -
  let ?H = "[start_hyp ex_maes_self () [()] (None :: unit option)]"
  have ev: "select_k_expansions_durations ?H
     [[0, 4]] [[- 7 / 10, - 4 / 5]] [[1, 2]] [[- 7 / 10, - 1]] (3 / 10)
   = Some [[(0, 2, - 17 / 10), (4, 1, - 3 / 2), (0, 1, - 7 / 5)]]"
    by (simp add: select_k_expansions_durations_def nth_opt_def hyp_i_candidates_def
        prune_by_value_def cand_score_def start_hyp_def)
  have rows: "\<forall>j < length ?H.
      j < length [[0, 4 :: nat]] \<and> j < length [[- 7 / 10, - 4 / 5 :: real]]
    \<and> j < length [[1, 2 :: nat]] \<and> j < length [[- 7 / 10, - 1 :: real]]
    \<and> [[0, 4 :: nat]] ! j \<noteq> [] \<and> [[- 7 / 10, - 4 / 5 :: real]] ! j \<noteq> []
    \<and> [[1, 2 :: nat]] ! j \<noteq> [] \<and> [[- 7 / 10, - 1 :: real]] ! j \<noteq> []"
    by simp
  from select_k_expansions_durations_prunes [OF rows, of "3 / 10"]
  obtain ks where ks: "select_k_expansions_durations ?H
     [[0, 4]] [[- 7 / 10, - 4 / 5]] [[1, 2]] [[- 7 / 10, - 1]] (3 / 10) = Some ks"
     "sorted (map cand_score (ks ! 0))"
    by (auto simp: Let_def)
  from ks(1) ev have "ks = [[(0, 2, - 17 / 10), (4, 1, - 3 / 2), (0, 1, - 7 / 5)]]" by simp
  with ks(2) have "sorted (map cand_score [(0, 2, - 17 / 10), (4, 1, - 3 / 2), (0, 1, - 7 / 5)])"
    by simp
  with ev show ?thesis by blast
qed

subsection \<open>Prefix-score corrector\<close>


lemma logaddexp_ge: "a \<le> logaddexp a b"
proof -
  have "exp a \<le> exp a + exp b" by simp
  then have "ln (exp a) \<le> ln (exp a + exp b)"
    by (subst ln_le_cancel_iff) (simp_all add: add_pos_pos)
  then show ?thesis by (simp add: logaddexp_def)
qed

lemma prefix_update_form:
  assumes "prefix_update self nets t prefix_alpha curr_hyp pref_hyp = Some curr_hyp'"
  shows "curr_hyp' = curr_hyp \<or> (\<exists>c. curr_hyp' = curr_hyp\<lparr>score := logaddexp (score curr_hyp) c\<rparr>)"
  using assms
  by (auto simp: prefix_update_def Let_def split: if_splits Option.bind_splits)

lemma prefix_update_score:
  assumes "prefix_update self nets t prefix_alpha curr_hyp pref_hyp = Some curr_hyp'"
  shows "score curr_hyp \<le> score curr_hyp' \<and> curr_hyp' = curr_hyp\<lparr>score := score curr_hyp'\<rparr>"
  using prefix_update_form[OF assms] logaddexp_ge by auto

lemma prefix_inner_score:
  "prefix_inner self nets t prefix_alpha curr_hyp rest = Some curr_hyp' \<Longrightarrow>
   score curr_hyp \<le> score curr_hyp' \<and> curr_hyp' = curr_hyp\<lparr>score := score curr_hyp'\<rparr>"
proof (induction rest arbitrary: curr_hyp)
  case Nil
  then show ?case by simp
next
  case (Cons p rest)
  from Cons.prems obtain c where c: "prefix_update self nets t prefix_alpha curr_hyp p = Some c"
    "prefix_inner self nets t prefix_alpha c rest = Some curr_hyp'"
    by (auto split: Option.bind_splits)
  from prefix_update_score[OF c(1)] Cons.IH[OF c(2)]
  have "score curr_hyp \<le> score c" "c = curr_hyp\<lparr>score := score c\<rparr>"
    "score c \<le> score curr_hyp'" "curr_hyp' = c\<lparr>score := score curr_hyp'\<rparr>" by blast+
  then show ?case by (metis (no_types) order_trans hypothesis.update_convs(1) hypothesis.surjective hypothesis.select_convs)
qed


lemma prefix_search_score:
  "prefix_search self nets t prefix_alpha hyps = Some hyps' \<Longrightarrow>
   list_all2 (\<lambda>h h'. score h \<le> score h' \<and> h' = h\<lparr>score := score h'\<rparr>) hyps hyps'"
proof (induction hyps arbitrary: hyps')
  case Nil
  then show ?case by simp
next
  case (Cons h rest)
  from Cons.prems obtain c rest' where c:
    "prefix_inner self nets t prefix_alpha h rest = Some c"
    "prefix_search self nets t prefix_alpha rest = Some rest'" "hyps' = c # rest'"
    by (auto split: Option.bind_splits)
  from prefix_inner_score[OF c(1)] Cons.IH[OF c(2)] c(3) show ?case by simp
qed

text \<open>
  Claim C7. When the prefix-score corrector returns, each hypothesis of the result is
  the hypothesis at the same position of the input with a score that is not smaller
  and all other fields unchanged. One update of a pair either leaves the longer
  hypothesis as it is or replaces its score \<open>s\<close> by \<open>logaddexp s c\<close> for the score
  \<open>c\<close> accumulated from the shorter one, and \<open>logaddexp a b\<close> is at least \<open>a\<close>.
\<close>

theorem prefix_search_never_decreases:
  "(prefix_search self nets t prefix_alpha hyps = Some hyps' \<longrightarrow>
      list_all2 (\<lambda>h h'. score h \<le> score h' \<and> h' = h\<lparr>score := score h'\<rparr>) hyps hyps')
   \<and> (prefix_update self nets t prefix_alpha curr_hyp pref_hyp = Some curr_hyp' \<longrightarrow>
        curr_hyp' = curr_hyp
        \<or> (\<exists>c. curr_hyp' = curr_hyp\<lparr>score := logaddexp (score curr_hyp) c\<rparr>))
   \<and> a \<le> logaddexp a b"
  using prefix_search_score prefix_update_form logaddexp_ge by blast

lemma ex_prefix_search:
  "prefix_search ex_maes_self ex_nets 1 1
     [\<lparr>score = - 1, y_sequence = [4, 0, 1], dec_state = (), dec_out = [(), (), ()],
       timestep = [- 1, 1, 1], length_frames = 1, last_frame = 1, ngram_lm_state = None\<rparr>,
      \<lparr>score = - 2, y_sequence = [4, 0], dec_state = (), dec_out = [(), ()],
       timestep = [- 1, 1], length_frames = 1, last_frame = 1, ngram_lm_state = None\<rparr>]
   = Some
     [\<lparr>score = logaddexp (- 1) (- 8), y_sequence = [4, 0, 1], dec_state = (),
       dec_out = [(), (), ()],
       timestep = [- 1, 1, 1], length_frames = 1, last_frame = 1, ngram_lm_state = None\<rparr>,
      \<lparr>score = - 2, y_sequence = [4, 0], dec_state = (), dec_out = [(), ()],
       timestep = [- 1, 1], length_frames = 1, last_frame = 1, ngram_lm_state = None\<rparr>]"
  by (simp add: prefix_update_def is_prefix_def last_opt_def nth_opt_def
      zero_duration_token_score_def ex_maes_self_def ex_nets_def)

lemma ex_prefix_update:
  "prefix_update ex_maes_self ex_nets 1 1
     \<lparr>score = - 1, y_sequence = [4, 0, 1], dec_state = (), dec_out = [(), (), ()],
       timestep = [- 1, 1, 1], length_frames = 1, last_frame = 1, ngram_lm_state = None :: unit option\<rparr>
     \<lparr>score = - 2, y_sequence = [4, 0], dec_state = (), dec_out = [(), ()],
       timestep = [- 1, 1], length_frames = 1, last_frame = 1, ngram_lm_state = None :: unit option\<rparr>
   = Some \<lparr>score = logaddexp (- 1) (- 8), y_sequence = [4, 0, 1], dec_state = (), dec_out = [(), (), ()],
       timestep = [- 1, 1, 1], length_frames = 1, last_frame = 1, ngram_lm_state = None :: unit option\<rparr>"
  by (simp add: prefix_update_def is_prefix_def last_opt_def nth_opt_def
      zero_duration_token_score_def ex_maes_self_def ex_nets_def)

theorem prefix_search_never_decreases_witness:
  "prefix_search ex_maes_self ex_nets 1 1
     [\<lparr>score = - 1, y_sequence = [4, 0, 1], dec_state = (), dec_out = [(), (), ()],
       timestep = [- 1, 1, 1], length_frames = 1, last_frame = 1, ngram_lm_state = None :: unit option\<rparr>,
      \<lparr>score = - 2, y_sequence = [4, 0], dec_state = (), dec_out = [(), ()],
       timestep = [- 1, 1], length_frames = 1, last_frame = 1, ngram_lm_state = None :: unit option\<rparr>]
   = Some
     [\<lparr>score = logaddexp (- 1) (- 8), y_sequence = [4, 0, 1], dec_state = (), dec_out = [(), (), ()],
       timestep = [- 1, 1, 1], length_frames = 1, last_frame = 1, ngram_lm_state = None :: unit option\<rparr>,
      \<lparr>score = - 2, y_sequence = [4, 0], dec_state = (), dec_out = [(), ()],
       timestep = [- 1, 1], length_frames = 1, last_frame = 1, ngram_lm_state = None :: unit option\<rparr>]
   \<and> prefix_update ex_maes_self ex_nets 1 1
     \<lparr>score = - 1, y_sequence = [4, 0, 1], dec_state = (), dec_out = [(), (), ()],
       timestep = [- 1, 1, 1], length_frames = 1, last_frame = 1, ngram_lm_state = None :: unit option\<rparr>
     \<lparr>score = - 2, y_sequence = [4, 0], dec_state = (), dec_out = [(), ()],
       timestep = [- 1, 1], length_frames = 1, last_frame = 1, ngram_lm_state = None :: unit option\<rparr>
   = Some \<lparr>score = logaddexp (- 1) (- 8), y_sequence = [4, 0, 1], dec_state = (), dec_out = [(), (), ()],
       timestep = [- 1, 1, 1], length_frames = 1, last_frame = 1, ngram_lm_state = None :: unit option\<rparr>
   \<and> - 1 \<le> logaddexp (- 1) (- 8)"
  using ex_prefix_search ex_prefix_update
    prefix_search_never_decreases [THEN conjunct1, rule_format, OF ex_prefix_search]
    prefix_search_never_decreases [THEN conjunct2, THEN conjunct1, rule_format,
      OF ex_prefix_update]
  by simp

subsection \<open>Runs of the mAES search\<close>


lemmas maes_defs = maes_round_def maes_expand_def update_hyps_def keep_beam_def final_blank_def
  argmax_def truthy_def last_opt_def nth_opt_def topk_def select_k_expansions_durations_def
  hyp_i_candidates_def prune_by_value_def cand_score_def List.map_filter_def
  remove_duplicate_hypotheses_def sorted_by_score_desc_def keep_if_new_def same_key_def
  py_take_def

lemma ex_maes_initial_zero:
  "maes_initial ex_maes_self ex_nets_zero =
   ([\<lparr>score = 0, y_sequence = [4], dec_state = (), dec_out = [()],
       timestep = [- 1], length_frames = 0, last_frame = 0, ngram_lm_state = None\<rparr>], ())"
  by (simp add: maes_initial_def start_hyp_def ex_maes_self_def split: prod.splits)

lemma ex_maes_initial_nets:
  "maes_initial ex_maes_self ex_nets =
   ([\<lparr>score = 0, y_sequence = [4], dec_state = (), dec_out = [()],
       timestep = [- 1], length_frames = 0, last_frame = 0, ngram_lm_state = None\<rparr>], ())"
  by (simp add: maes_initial_def start_hyp_def ex_maes_self_def split: prod.splits)

lemma ex_maes_frame_0_zero:
  "maes_frame ex_maes_self ex_nets_zero 0
     ([\<lparr>score = 0, y_sequence = [4], dec_state = (), dec_out = [()],
        timestep = [- 1], length_frames = 0, last_frame = 0, ngram_lm_state = None\<rparr>], ())
   = Some
      ([\<lparr>score = - (3 / 2), y_sequence = [4], dec_state = (), dec_out = [()],
         timestep = [- 1], length_frames = 0, last_frame = 0, ngram_lm_state = None\<rparr>,
        \<lparr>score = - (17 / 10), y_sequence = [4, 0], dec_state = (), dec_out = [(), (), ()],
         timestep = [- 1, 0], length_frames = 0, last_frame = 1, ngram_lm_state = None\<rparr>],
       ())"
  by (simp add: maes_frame_def maes_defs ex_nets_zero_def ex_maes_self_def numeral_2_eq_2)

lemma ex_maes_frame_0:
  "maes_frame ex_maes_self ex_nets 0
     ([\<lparr>score = 0, y_sequence = [4], dec_state = (), dec_out = [()],
        timestep = [- 1], length_frames = 0, last_frame = 0, ngram_lm_state = None\<rparr>], ())
   = Some
      ([\<lparr>score = - (7 / 5), y_sequence = [4, 0], dec_state = (), dec_out = [(), ()],
         timestep = [- 1, 0], length_frames = 0, last_frame = 1, ngram_lm_state = None\<rparr>,
        \<lparr>score = - (3 / 2), y_sequence = [4], dec_state = (), dec_out = [()],
         timestep = [- 1], length_frames = 0, last_frame = 1, ngram_lm_state = None\<rparr>],
       ())"
  by (simp add: maes_frame_def maes_defs ex_nets_def ex_maes_self_def numeral_2_eq_2)

lemma ex_maes_search_1:
  "modified_adaptive_expansion_search ex_maes_self ex_nets 1
   = Some
      [\<lparr>score = - (7 / 5), y_sequence = [4, 0], dec_state = (), dec_out = [(), ()],
         timestep = [- 1, 0], length_frames = 0, last_frame = 1, ngram_lm_state = None\<rparr>,
        \<lparr>score = - (3 / 2), y_sequence = [4], dec_state = (), dec_out = [()],
         timestep = [- 1], length_frames = 0, last_frame = 1, ngram_lm_state = None\<rparr>]"
proof -
  have u: "[0 ..< (1::nat)] = [0]" by simp
  have b: "\<not> min (beam_size ex_maes_self) (vocab_size ex_maes_self) < 0"
    by (simp add: ex_maes_self_def)
  show ?thesis
    unfolding modified_adaptive_expansion_search_def u ex_maes_initial_nets
    apply (simp only: b if_False maes_frames.simps ex_maes_frame_0 Option.bind.simps prod.case)
    apply (simp add: sort_nbest_def ex_maes_self_def sorted_by_score_desc_def)
    done
qed

text \<open>
  Claim C2 says that a non-blank expansion with duration zero goes to the round's
  expansion list exactly when the source's tokens with \<open>k\<close> appended once are not among
  the token sequences of the frame. The source appends \<open>k\<close> to the new hypothesis and
  then tests the new sequence with \<open>k\<close> appended again. Here the frame holds the
  sequences \<open>[4, 0]\<close> and \<open>[4]\<close>; the expansion of \<open>[4]\<close> by token 0 with duration
  zero gives \<open>[4, 0]\<close>, which is among them, and it is routed to the expansion list.
\<close>

theorem maes_expand_duplicate_check:
  "maes_expand ex_maes_self ex_nets_zero 1 [[4, 0], [4]]
     [- 7 / 10, - 4, - 21 / 5, - 9 / 2, - 4 / 5] [- 7 / 10, - 1, - 2]
     \<lparr>score = - (3 / 2), y_sequence = [4], dec_state = (), dec_out = [()],
       timestep = [- 1], length_frames = 0, last_frame = 1, ngram_lm_state = None\<rparr>
     (0, 0, - (29 / 10))
   = Some (To_list_exp
       \<lparr>score = - (29 / 10), y_sequence = [4, 0], dec_state = (), dec_out = [()],
         timestep = [- 1, 1], length_frames = 1, last_frame = 1, ngram_lm_state = None\<rparr>)"
  by (simp add: maes_defs ex_nets_zero_def ex_maes_self_def)

text \<open>In general, without a language model: the sequence that is looked up has \<open>k\<close>
  twice.\<close>

lemma maes_expand_nonblank_zero:
  assumes "k \<noteq> blank self" "\<not> ngram_lm self" "nth_opt (durations self) duration_idx = Some 0"
  shows "maes_expand self nets t duplication_check lp dlp hyp (k, duration_idx, new_score) =
    Some ((if y_sequence hyp @ [k, k] \<notin> set duplication_check then To_list_exp else To_list_nb)
      \<lparr>score = new_score, y_sequence = y_sequence hyp @ [k], dec_state = dec_state hyp,
        dec_out = dec_out hyp, timestep = timestep hyp @ [int t], length_frames = t,
        last_frame = last_frame hyp, ngram_lm_state = None\<rparr>)"
  using assms by (simp add: maes_expand_def)


lemma ex_maes_expand_blank_zero:
  "maes_expand ex_maes_self ex_nets_zero 0 [[4]]
     [- 7 / 10, - 4, - 21 / 5, - 9 / 2, - 4 / 5] [- 7 / 10, - 1, - 2]
     \<lparr>score = 0, y_sequence = [4], dec_state = (), dec_out = [()],
       timestep = [- 1], length_frames = 0, last_frame = 0, ngram_lm_state = None\<rparr>
     (4, 0, - (3 / 2))
   = Some (To_list_b
       \<lparr>score = - (3 / 2), y_sequence = [4], dec_state = (), dec_out = [()],
         timestep = [- 1], length_frames = 0, last_frame = 0, ngram_lm_state = None\<rparr>)"
  by (simp add: maes_defs ex_nets_zero_def ex_maes_self_def)

text \<open>
  Claim C1 says that no blank emission is paired with a zero duration, so that
  \<^const>\<open>last_frame\<close> grows with every blank. In the mAES search the substitution of
  the least non-zero duration is guarded by the truth value of
  \<^verbatim>\<open>self.zero_duration_idx\<close>, which is false for the index 0. The decoder
  \<^const>\<open>ex_maes_self\<close>, built by \<^const>\<open>init\<close> from the durations 0, 1, 2, decodes
  one frame of \<^const>\<open>ex_nets_zero\<close>: the best hypothesis it returns is the blank
  emission from the start hypothesis with duration zero, still at frame 0.
\<close>

theorem maes_blank_zero_duration:
  "modified_adaptive_expansion_search ex_maes_self ex_nets_zero 1
   = Some
      [\<lparr>score = - (3 / 2), y_sequence = [4], dec_state = (), dec_out = [()],
         timestep = [- 1], length_frames = 0, last_frame = 0, ngram_lm_state = None\<rparr>,
       \<lparr>score = - (17 / 10), y_sequence = [4, 0], dec_state = (), dec_out = [(), (), ()],
         timestep = [- 1, 0], length_frames = 0, last_frame = 1, ngram_lm_state = None\<rparr>]"
proof -
  have u: "[0 ..< (1::nat)] = [0]" by simp
  have b: "\<not> min (beam_size ex_maes_self) (vocab_size ex_maes_self) < 0"
    by (simp add: ex_maes_self_def)
  show ?thesis
    unfolding modified_adaptive_expansion_search_def u ex_maes_initial_zero
    apply (simp only: b if_False maes_frames.simps ex_maes_frame_0_zero Option.bind.simps
        prod.case)
    apply (simp add: sort_nbest_def ex_maes_self_def sorted_by_score_desc_def)
    done
qed

subsection \<open>The size of the surviving set\<close>


lemma length_py_take: "0 \<le> k \<Longrightarrow> int (length (py_take k xs)) \<le> k"
  by (simp add: py_take_def)

lemma set_py_take: "set (py_take k xs) \<subseteq> set xs"
  by (auto simp: py_take_def dest: in_set_takeD)

lemma length_keep_beam: "0 \<le> beam_of self \<Longrightarrow> int (length (keep_beam self xs)) \<le> beam_of self"
  unfolding keep_beam_def beam_of_def by (rule length_py_take)

lemma maes_steps_length:
  "maes_steps self nets t dup g n state = Some (kept', w') \<Longrightarrow> 0 \<le> beam_of self \<Longrightarrow>
   int (length (fst (snd (snd (snd state))))) \<le> beam_of self \<Longrightarrow>
   int (length kept') \<le> beam_of self"
proof (induction n arbitrary: state)
  case 0
  then show ?case by auto
next
  case (Suc left)
  obtain hyps list_b list_nb kept_hyps w where st: "state = (hyps, list_b, list_nb, kept_hyps, w)"
    by (cases state) auto
  from Suc.prems(1) obtain list_b1 list_nb1 list_exp w1 where
    r: "maes_round self nets t dup g hyps (list_b, list_nb, w) = Some (list_b1, list_nb1, list_exp, w1)"
    and rest: "(if list_exp = [] then Some (keep_beam self (kept_hyps @ list_b1 @ list_nb1), w1)
         else if left \<noteq> 0 then
           maes_steps self nets t dup g left
             (remove_duplicate_hypotheses list_exp, list_b1, list_nb1, kept_hyps, w1)
         else Option.bind (those (map (final_blank self nets t) list_exp))
             (\<lambda>list_exp'. Some (keep_beam self (kept_hyps @ list_b1 @ list_exp' @ list_nb1), w1)))
        = Some (kept', w')"
    unfolding st by (auto split: Option.bind_splits)
  show ?case
  proof (cases "list_exp = []")
    case True
    with rest show ?thesis using length_keep_beam[OF Suc.prems(2)] by auto
  next
    case False
    show ?thesis
    proof (cases "left = 0")
      case True
      with rest False show ?thesis using length_keep_beam[OF Suc.prems(2)]
        by (auto split: Option.bind_splits)
    next
      case l: False
      with rest False have "maes_steps self nets t dup g left
             (remove_duplicate_hypotheses list_exp, list_b1, list_nb1, kept_hyps, w1) = Some (kept', w')"
        by simp
      from Suc.IH[OF this Suc.prems(2)] Suc.prems(3) show ?thesis by (simp add: st)
    qed
  qed
qed

lemma maes_frame_length:
  assumes "maes_frame self nets t (kept, w) = Some (kept', w')" "0 \<le> beam_of self"
    "int (length kept) \<le> beam_of self"
  shows "int (length kept') \<le> beam_of self"
proof (cases "filter (\<lambda>x. last_frame x = t) kept = []")
  case True
  with assms(1) have k: "kept' = filter (\<lambda>x. t < last_frame x) kept"
    by (simp add: maes_frame_def Let_def)
  have "int (length (filter (\<lambda>x. t < last_frame x) kept)) \<le> int (length kept)" by simp
  then show ?thesis unfolding k using assms(3) by linarith
next
  case False
  with assms(1) obtain dup g n hyps' where
    "maes_steps self nets t dup g n (hyps', [], [], filter (\<lambda>x. t < last_frame x) kept, w) = Some (kept', w')"
    by (auto simp: maes_frame_def Let_def split: Option.bind_splits)
  from maes_steps_length[OF this assms(2)] assms(3)
  show ?thesis
    using length_filter_le[of "\<lambda>x. t < last_frame x" kept] by simp
qed

lemma maes_frames_length:
  "maes_frames self nets ts state = Some (kept', w') \<Longrightarrow> 0 \<le> beam_of self \<Longrightarrow>
   int (length (fst state)) \<le> beam_of self \<Longrightarrow> int (length kept') \<le> beam_of self"
proof (induction ts arbitrary: state)
  case Nil
  then show ?case by auto
next
  case (Cons t ts)
  from Cons.prems(1) obtain mid where m: "maes_frame self nets t state = Some mid"
    "maes_frames self nets ts mid = Some (kept', w')"
    by (auto split: Option.bind_splits)
  have "int (length (fst mid)) \<le> beam_of self"
    using maes_frame_length[of self nets t "fst state" "snd state" "fst mid" "snd mid"] m(1)
      Cons.prems(2,3) by simp
  from Cons.IH[OF m(2) Cons.prems(2) this] show ?case .
qed

lemma length_maes_initial: "length (fst (maes_initial self nets)) = 1"
  by (simp add: maes_initial_def split: prod.splits)

lemma default_iteration_sizes:
  assumes "default_iteration self nets L t state = Some ((hyps', kept', w'), brk)"
    "0 \<le> beam_of self"
  shows "(brk \<longrightarrow> beam_of self \<le> int (length kept'))
       \<and> (\<not> brk \<and> hyps' = [] \<longrightarrow> int (length kept') \<le> beam_of self)"
proof -
  obtain hyps kept w where st: "state = (hyps, kept, w)" by (cases state) auto
  from assms(1) obtain k2 where
    tc: "termination_check (beam_of self) hyps' k2 = (kept', brk)"
    unfolding st default_iteration_def default_expand_def beam_of_def
    by (auto simp: Let_def split: Option.bind_splits prod.splits)
  show ?thesis
  proof (cases "hyps' = []")
    case True
    with tc have "kept' = py_take (beam_of self) (sorted_by_score_desc k2)" "\<not> brk"
      by (auto simp: termination_check_def)
    then show ?thesis using length_py_take[OF assms(2)] True by simp
  next
    case False
    then obtain m where "max_by score hyps' = Some m" using max_by_Some[OF False] by blast
    with tc show ?thesis using False
      by (auto simp: termination_check_def Let_def split: if_splits)
  qed
qed


text \<open>
  Claim C4, as stated, fails for the default search. With beam 3, the first frame of
  \<^const>\<open>ex_nets\<close> ends by the \<^verbatim>\<open>break\<close> of the termination check, and four
  hypotheses survive the frame.
\<close>

theorem frontier_bound_counterexample:
  "beam_of ex_self = 3
   \<and> default_frame ex_self ex_nets 1 0
        ([start_hyp ex_self (initialize_state ex_nets) [] None], fresh_cache ex_nets)
     = Some ([\<lparr>score = - (9 / 5), y_sequence = [4], dec_state = (), dec_out = [],
        timestep = [- 1], length_frames = 1, last_frame = 2, ngram_lm_state = None :: unit option\<rparr>,
       \<lparr>score = - (17 / 10), y_sequence = [4, 0], dec_state = (), dec_out = [],
        timestep = [- 1, 2], length_frames = 1, last_frame = 2, ngram_lm_state = None\<rparr>,
       \<lparr>score = - (3 / 2), y_sequence = [4], dec_state = (), dec_out = [],
        timestep = [- 1], length_frames = 1, last_frame = 1, ngram_lm_state = None\<rparr>,
       \<lparr>score = - (7 / 5), y_sequence = [4, 0], dec_state = (), dec_out = [],
        timestep = [- 1, 1], length_frames = 1, last_frame = 1, ngram_lm_state = None\<rparr>], ())"
proof -
  have n: "initialize_state ex_nets = ()" "fresh_cache ex_nets = ()"
    by (simp_all add: ex_nets_def)
  have b: "beam_of ex_self = 3" by (simp add: beam_of_def ex_self_def)
  show ?thesis unfolding n ex_default_frame_0 b by simp
qed

text \<open>
  Claim C4, amended. In the mAES search the surviving set has at most \<open>beam\<close>
  hypotheses after every frame: each frame keeps the bound, and the search starts from
  one hypothesis. In the default search an iteration of the inner loop that empties the
  current frame leaves at most \<open>beam\<close> future hypotheses, and an iteration that ends
  the loop by \<^verbatim>\<open>break\<close> leaves at least \<open>beam\<close> of them, with no upper bound.
\<close>

theorem frontier_bound:
  "(maes_frames self nets ts (maes_initial self nets) = Some (kept_hyps, w)
      \<and> 1 \<le> beam_of self \<longrightarrow> int (length kept_hyps) \<le> beam_of self)
   \<and> (maes_frame self nets t (kept0, w0) = Some (kept1, w1) \<and> 0 \<le> beam_of self
      \<and> int (length kept0) \<le> beam_of self \<longrightarrow> int (length kept1) \<le> beam_of self)
   \<and> (default_iteration self nets encoded_lengths time_idx state = Some ((hyps', kept', w'), brk)
      \<and> 0 \<le> beam_of self \<longrightarrow>
        (brk \<longrightarrow> beam_of self \<le> int (length kept'))
        \<and> (\<not> brk \<and> hyps' = [] \<longrightarrow> int (length kept') \<le> beam_of self))"
proof (intro conjI impI)
  assume a: "maes_frames self nets ts (maes_initial self nets) = Some (kept_hyps, w)
      \<and> 1 \<le> beam_of self"
  then have b: "0 \<le> beam_of self" "int (length (fst (maes_initial self nets))) \<le> beam_of self"
    by (simp_all add: length_maes_initial)
  from a have f: "maes_frames self nets ts (maes_initial self nets) = Some (kept_hyps, w)"
    by simp
  show "int (length kept_hyps) \<le> beam_of self"
    by (rule maes_frames_length[OF f b])
next
  assume a: "maes_frame self nets t (kept0, w0) = Some (kept1, w1) \<and> 0 \<le> beam_of self
      \<and> int (length kept0) \<le> beam_of self"
  show "int (length kept1) \<le> beam_of self"
    by (rule maes_frame_length [OF a [THEN conjunct1] a [THEN conjunct2, THEN conjunct1]
          a [THEN conjunct2, THEN conjunct2]])
next
  assume a: "default_iteration self nets encoded_lengths time_idx state = Some ((hyps', kept', w'), brk)
      \<and> 0 \<le> beam_of self"
  note s = default_iteration_sizes [OF a [THEN conjunct1] a [THEN conjunct2]]
  { assume brk then show "beam_of self \<le> int (length kept')"
      using s by simp }
  { assume "\<not> brk \<and> hyps' = []" then show "int (length kept') \<le> beam_of self"
      using s by simp }
qed

lemma ex_maes_frames_0:
  "maes_frames ex_maes_self ex_nets [0] (maes_initial ex_maes_self ex_nets) =
   Some ([\<lparr>score = - (7 / 5), y_sequence = [4, 0], dec_state = (), dec_out = [(), ()],
         timestep = [- 1, 0], length_frames = 0, last_frame = 1, ngram_lm_state = None :: unit option\<rparr>,
        \<lparr>score = - (3 / 2), y_sequence = [4], dec_state = (), dec_out = [()],
         timestep = [- 1], length_frames = 0, last_frame = 1, ngram_lm_state = None\<rparr>], ())"
  unfolding ex_maes_initial_nets
  by (simp only: maes_frames.simps ex_maes_frame_0 Option.bind.simps)

theorem frontier_bound_witness:
  "maes_frames ex_maes_self ex_nets [0] (maes_initial ex_maes_self ex_nets) =
     Some ([\<lparr>score = - (7 / 5), y_sequence = [4, 0], dec_state = (), dec_out = [(), ()],
         timestep = [- 1, 0], length_frames = 0, last_frame = 1, ngram_lm_state = None :: unit option\<rparr>,
        \<lparr>score = - (3 / 2), y_sequence = [4], dec_state = (), dec_out = [()],
         timestep = [- 1], length_frames = 0, last_frame = 1, ngram_lm_state = None\<rparr>], ())
   \<and> int (length [\<lparr>score = - (7 / 5), y_sequence = [4, 0], dec_state = (), dec_out = [(), ()],
         timestep = [- 1, 0], length_frames = 0, last_frame = 1, ngram_lm_state = None :: unit option\<rparr>,
        \<lparr>score = - (3 / 2), y_sequence = [4], dec_state = (), dec_out = [()],
         timestep = [- 1], length_frames = 0, last_frame = 1, ngram_lm_state = None\<rparr>]) \<le> beam_of ex_maes_self
   \<and> default_iteration ex_self ex_nets 1 0 ([start_hyp ex_self () [] None], [], ())
     = Some (([\<lparr>score = - (27 / 10), y_sequence = [4, 0], dec_state = (), dec_out = [],
        timestep = [- 1, 0], length_frames = 1, last_frame = 0, ngram_lm_state = None :: unit option\<rparr>], [\<lparr>score = - (9 / 5), y_sequence = [4], dec_state = (), dec_out = [],
        timestep = [- 1], length_frames = 1, last_frame = 2, ngram_lm_state = None :: unit option\<rparr>,
       \<lparr>score = - (17 / 10), y_sequence = [4, 0], dec_state = (), dec_out = [],
        timestep = [- 1, 2], length_frames = 1, last_frame = 2, ngram_lm_state = None\<rparr>,
       \<lparr>score = - (3 / 2), y_sequence = [4], dec_state = (), dec_out = [],
        timestep = [- 1], length_frames = 1, last_frame = 1, ngram_lm_state = None\<rparr>,
       \<lparr>score = - (7 / 5), y_sequence = [4, 0], dec_state = (), dec_out = [],
        timestep = [- 1, 1], length_frames = 1, last_frame = 1, ngram_lm_state = None\<rparr>], ()), True)
   \<and> beam_of ex_self \<le> int (length [\<lparr>score = - (9 / 5), y_sequence = [4], dec_state = (), dec_out = [],
        timestep = [- 1], length_frames = 1, last_frame = 2, ngram_lm_state = None :: unit option\<rparr>,
       \<lparr>score = - (17 / 10), y_sequence = [4, 0], dec_state = (), dec_out = [],
        timestep = [- 1, 2], length_frames = 1, last_frame = 2, ngram_lm_state = None\<rparr>,
       \<lparr>score = - (3 / 2), y_sequence = [4], dec_state = (), dec_out = [],
        timestep = [- 1], length_frames = 1, last_frame = 1, ngram_lm_state = None\<rparr>,
       \<lparr>score = - (7 / 5), y_sequence = [4, 0], dec_state = (), dec_out = [],
        timestep = [- 1, 1], length_frames = 1, last_frame = 1, ngram_lm_state = None\<rparr>])"
proof -
  have b: "1 \<le> beam_of ex_maes_self" "0 \<le> beam_of ex_maes_self" "0 \<le> beam_of ex_self"
    by (simp_all add: beam_of_def ex_maes_self_def ex_self_def)
  have 1: "int (length [\<lparr>score = - (7 / 5), y_sequence = [4, 0], dec_state = (), dec_out = [(), ()],
         timestep = [- 1, 0], length_frames = 0, last_frame = 1, ngram_lm_state = None :: unit option\<rparr>,
        \<lparr>score = - (3 / 2), y_sequence = [4], dec_state = (), dec_out = [()],
         timestep = [- 1], length_frames = 0, last_frame = 1, ngram_lm_state = None\<rparr>]) \<le> beam_of ex_maes_self"
    using frontier_bound [THEN conjunct1, rule_format, OF conjI, OF ex_maes_frames_0 b(1)] .
  have 2: "beam_of ex_self \<le> int (length [\<lparr>score = - (9 / 5), y_sequence = [4], dec_state = (), dec_out = [],
        timestep = [- 1], length_frames = 1, last_frame = 2, ngram_lm_state = None :: unit option\<rparr>,
       \<lparr>score = - (17 / 10), y_sequence = [4, 0], dec_state = (), dec_out = [],
        timestep = [- 1, 2], length_frames = 1, last_frame = 2, ngram_lm_state = None\<rparr>,
       \<lparr>score = - (3 / 2), y_sequence = [4], dec_state = (), dec_out = [],
        timestep = [- 1], length_frames = 1, last_frame = 1, ngram_lm_state = None\<rparr>,
       \<lparr>score = - (7 / 5), y_sequence = [4, 0], dec_state = (), dec_out = [],
        timestep = [- 1, 1], length_frames = 1, last_frame = 1, ngram_lm_state = None\<rparr>])"
    using frontier_bound [THEN conjunct2, THEN conjunct2, rule_format, OF conjI,
        OF ex_iteration_0 b(3), THEN conjunct1, rule_format] by simp
  show ?thesis using ex_maes_frames_0 ex_iteration_0 1 2 by blast
qed

subsection \<open>The token sequences of the hypotheses\<close>

lemma those_Some_map: "those xs = Some ys \<Longrightarrow> xs = map Some ys"
proof (induction xs arbitrary: ys)
  case Nil
  then show ?case by simp
next
  case (Cons x xs)
  then show ?case by (cases x) (auto split: option.splits)
qed

lemma those_Some_set: "those xs = Some ys \<Longrightarrow> y \<in> set ys \<Longrightarrow> Some y \<in> set xs"
  by (drule those_Some_map) auto

lemma set_foldl_keep_if_new: "set (foldl keep_if_new acc xs) \<subseteq> set acc \<union> set xs"
proof (induction xs arbitrary: acc)
  case Nil
  then show ?case by simp
next
  case (Cons x xs)
  have "set (keep_if_new acc x) \<subseteq> set acc \<union> {x}" by (auto simp: keep_if_new_cases)
  with Cons.IH[of "keep_if_new acc x"] show ?case by auto
qed

lemma set_remove_duplicate_hypotheses: "set (remove_duplicate_hypotheses xs) \<subseteq> set xs"
  using set_foldl_keep_if_new[of "[]" "sorted_by_score_desc xs"]
  by (simp add: remove_duplicate_hypotheses_def sorted_by_score_desc_def)

lemma set_keep_beam: "set (keep_beam self xs) \<subseteq> set xs"
  unfolding keep_beam_def
  using set_py_take set_remove_duplicate_hypotheses
  by (fastforce simp: sorted_by_score_desc_def)

lemma set_map_filter_D: "y \<in> set (List.map_filter f xs) \<Longrightarrow> \<exists>x \<in> set xs. f x = Some y"
  by (auto simp: List.map_filter_def)

lemma tokens_ok_eq: "y_sequence h' = y_sequence h \<Longrightarrow> tokens_ok self h' = tokens_ok self h"
  by (simp add: tokens_ok_def)

lemma tokens_ok_snoc:
  "tokens_ok self h \<Longrightarrow> k \<noteq> blank self \<Longrightarrow> y_sequence h' = y_sequence h @ [k] \<Longrightarrow>
   tokens_ok self h'"
  by (cases "y_sequence h") (auto simp: tokens_ok_def)

lemma tokens_ok_start: "tokens_ok self (start_hyp self st outs lm)"
  by (simp add: tokens_ok_def start_hyp_def)

lemma maes_expand_ok:
  assumes "maes_expand self nets t dup lp dlp hyp x = Some r" "tokens_ok self hyp"
    "in_list_b r = Some h \<or> in_list_exp r = Some h \<or> in_list_nb r = Some h"
  shows "tokens_ok self h"
proof -
  obtain k d s where x: "x = (k, d, s)" by (cases x) auto
  show ?thesis
  proof (cases "k = blank self")
    case True
    with assms(1,3) have "y_sequence h = y_sequence hyp"
      unfolding x maes_expand_def
      by (auto simp: Let_def split: Option.bind_splits if_splits)
    then show ?thesis using assms(2) tokens_ok_eq by blast
  next
    case False
    with assms(1,3) have "y_sequence h = y_sequence hyp @ [k]"
      unfolding x maes_expand_def
      by (auto simp: Let_def split: Option.bind_splits if_splits)
    then show ?thesis using assms(2) False tokens_ok_snoc by blast
  qed
qed

lemma update_hyps_y:
  "h \<in> set (fst (update_hyps nets xs w)) \<Longrightarrow> \<exists>g \<in> set xs. y_sequence h = y_sequence g"
  by (auto simp: update_hyps_def Let_def split: if_splits prod.splits dest!: set_zip_rightD)

lemma final_blank_y: "final_blank self nets t h = Some h' \<Longrightarrow> y_sequence h' = y_sequence h"
  by (auto simp: final_blank_def Let_def split: Option.bind_splits prod.splits)

lemma maes_round_ok:
  assumes r: "maes_round self nets t dup g hyps (list_b, list_nb, w) = Some (list_b', list_nb', list_exp, w')"
    and ok: "\<forall>h \<in> set hyps \<union> set list_b \<union> set list_nb. tokens_ok self h"
  shows "\<forall>h \<in> set list_b' \<union> set list_nb' \<union> set list_exp. tokens_ok self h"
proof -
  from r obtain beam_logps k_expansions routed where
    ro: "those (concat (map
            (\<lambda>(hyp, p, expansions).
               map (maes_expand self nets t dup (fst p) (snd p) hyp) expansions)
            (zip hyps (zip beam_logps k_expansions)))) = Some routed"
    and res: "list_b' = list_b @ List.map_filter in_list_b routed"
      "take (length (list_nb @ List.map_filter in_list_nb routed))
         (fst (update_hyps nets ((list_nb @ List.map_filter in_list_nb routed)
                 @ List.map_filter in_list_exp routed) w)) = list_nb'"
      "drop (length (list_nb @ List.map_filter in_list_nb routed))
         (fst (update_hyps nets ((list_nb @ List.map_filter in_list_nb routed)
                 @ List.map_filter in_list_exp routed) w)) = list_exp"
    unfolding maes_round_def
    by (auto simp: Let_def split: Option.bind_splits prod.splits)
  have routed_ok: "tokens_ok self h"
    if "x \<in> set routed" "in_list_b x = Some h \<or> in_list_exp x = Some h \<or> in_list_nb x = Some h"
    for x h
  proof -
    from those_Some_set[OF ro that(1)] obtain hyp p expansions e where
      "(hyp, p, expansions) \<in> set (zip hyps (zip beam_logps k_expansions))"
      "Some x = maes_expand self nets t dup (fst p) (snd p) hyp e"
      by auto
    then have "hyp \<in> set hyps" "maes_expand self nets t dup (fst p) (snd p) hyp e = Some x"
      by (auto dest: set_zip_leftD)
    then show ?thesis using maes_expand_ok[OF _ _ that(2)] ok by blast
  qed
  have b: "\<forall>h \<in> set (List.map_filter in_list_b routed). tokens_ok self h"
    using routed_ok by (blast dest: set_map_filter_D)
  have nb: "\<forall>h \<in> set (List.map_filter in_list_nb routed). tokens_ok self h"
    using routed_ok by (blast dest: set_map_filter_D)
  have ex: "\<forall>h \<in> set (List.map_filter in_list_exp routed). tokens_ok self h"
    using routed_ok by (blast dest: set_map_filter_D)
  have upd: "tokens_ok self h"
    if "h \<in> set (fst (update_hyps nets ((list_nb @ List.map_filter in_list_nb routed)
                 @ List.map_filter in_list_exp routed) w))" for h
  proof -
    from update_hyps_y[OF that] obtain g0 where
      g: "g0 \<in> set ((list_nb @ List.map_filter in_list_nb routed) @ List.map_filter in_list_exp routed)"
      "y_sequence h = y_sequence g0" by blast
    then have "tokens_ok self g0" using ok nb ex by auto
    then show ?thesis using tokens_ok_eq[OF g(2)] by blast
  qed
  have "\<forall>h \<in> set list_b'. tokens_ok self h" using res(1) ok b by auto
  moreover have "\<forall>h \<in> set list_nb'. tokens_ok self h"
    using res(2) upd by (auto dest: in_set_takeD)
  moreover have "\<forall>h \<in> set list_exp. tokens_ok self h"
    using res(3) upd by (auto dest: in_set_dropD)
  ultimately show ?thesis by blast
qed

lemma keep_beam_ok:
  "\<forall>h \<in> set xs. tokens_ok self h \<Longrightarrow> \<forall>h \<in> set (keep_beam self xs). tokens_ok self h"
  using set_keep_beam[of self xs] by blast

lemma maes_steps_ok:
  "maes_steps self nets t dup g n (hyps, list_b, list_nb, kept_hyps, w) = Some (kept', w') \<Longrightarrow>
   \<forall>h \<in> set hyps \<union> set list_b \<union> set list_nb. tokens_ok self h \<Longrightarrow>
   \<forall>h \<in> set kept_hyps. tokens_ok self h \<Longrightarrow>
   \<forall>h \<in> set kept'. tokens_ok self h"
proof (induction n arbitrary: hyps list_b list_nb w)
  case 0
  then show ?case by simp
next
  case (Suc left)
  note ok = Suc.prems(2,3)
  from Suc.prems(1) obtain list_b1 list_nb1 list_exp w1 where
    r: "maes_round self nets t dup g hyps (list_b, list_nb, w) = Some (list_b1, list_nb1, list_exp, w1)"
    and rest: "(if list_exp = [] then Some (keep_beam self (kept_hyps @ list_b1 @ list_nb1), w1)
         else if left \<noteq> 0 then
           maes_steps self nets t dup g left
             (remove_duplicate_hypotheses list_exp, list_b1, list_nb1, kept_hyps, w1)
         else Option.bind (those (map (final_blank self nets t) list_exp))
             (\<lambda>list_exp'. Some (keep_beam self (kept_hyps @ list_b1 @ list_exp' @ list_nb1), w1)))
        = Some (kept', w')"
    by (auto split: Option.bind_splits)
  note rok = maes_round_ok[OF r ok(1)]
  have rb: "\<forall>h \<in> set list_b1. tokens_ok self h" and rnb: "\<forall>h \<in> set list_nb1. tokens_ok self h"
    and rex: "\<forall>h \<in> set list_exp. tokens_ok self h"
    using rok by blast+
  show ?case
  proof (cases "list_exp = []")
    case True
    with rest have k: "kept' = keep_beam self (kept_hyps @ list_b1 @ list_nb1)" by simp
    have "\<forall>h \<in> set (kept_hyps @ list_b1 @ list_nb1). tokens_ok self h"
      using ok(2) rb rnb by simp blast
    then show ?thesis unfolding k by (rule keep_beam_ok)
  next
    case False
    show ?thesis
    proof (cases "left = 0")
      case True
      with rest False obtain list_exp' where
        fb: "those (map (final_blank self nets t) list_exp) = Some list_exp'"
        and k: "kept' = keep_beam self (kept_hyps @ list_b1 @ list_exp' @ list_nb1)"
        by (auto split: Option.bind_splits)
      have e: "\<forall>h \<in> set list_exp'. tokens_ok self h"
      proof
        fix h assume "h \<in> set list_exp'"
        from those_Some_set[OF fb this] obtain g0 where
          g0: "g0 \<in> set list_exp" "final_blank self nets t g0 = Some h" by auto
        have "tokens_ok self g0" using rex g0(1) by blast
        moreover have "y_sequence h = y_sequence g0" using final_blank_y[OF g0(2)] .
        ultimately show "tokens_ok self h" using tokens_ok_eq by blast
      qed
      have "\<forall>h \<in> set (kept_hyps @ list_b1 @ list_exp' @ list_nb1). tokens_ok self h"
        using ok(2) rb rnb e by simp blast
      then show ?thesis unfolding k by (rule keep_beam_ok)
    next
      case l: False
      with rest False have rec: "maes_steps self nets t dup g left
             (remove_duplicate_hypotheses list_exp, list_b1, list_nb1, kept_hyps, w1) = Some (kept', w')"
        by simp
      have "\<forall>h \<in> set (remove_duplicate_hypotheses list_exp). tokens_ok self h"
        using rex set_remove_duplicate_hypotheses[of list_exp] by blast
      then have "\<forall>h \<in> set (remove_duplicate_hypotheses list_exp) \<union> set list_b1 \<union> set list_nb1.
                   tokens_ok self h"
        using rb rnb by blast
      from Suc.IH[OF rec this ok(2)] show ?thesis .
    qed
  qed
qed

lemma prefix_search_ok:
  assumes "prefix_search self nets t a hyps = Some hyps'" "\<forall>h \<in> set hyps. tokens_ok self h"
  shows "\<forall>h \<in> set hyps'. tokens_ok self h"
proof -
  have l: "list_all2 (\<lambda>h h'. y_sequence h' = y_sequence h) hyps hyps'"
  proof (rule list_all2_mono[OF prefix_search_score[OF assms(1)]])
    fix h h' :: "('a, 'b, 'c) hypothesis"
    assume "score h \<le> score h' \<and> h' = h\<lparr>score := score h'\<rparr>"
    then have "y_sequence h' = y_sequence (h\<lparr>score := score h'\<rparr>)" by simp
    then show "y_sequence h' = y_sequence h" by simp
  qed
  show ?thesis
  proof
    fix h' assume "h' \<in> set hyps'"
    then obtain i where i: "i < length hyps'" "hyps' ! i = h'" by (auto simp: in_set_conv_nth)
    from l i have "i < length hyps" "y_sequence h' = y_sequence (hyps ! i)"
      by (auto simp: list_all2_conv_all_nth)
    then show "tokens_ok self h'" using assms(2) tokens_ok_eq[of h' "hyps ! i" self] by simp
  qed
qed

lemma maes_frame_ok:
  assumes "maes_frame self nets t (kept, w) = Some (kept', w')" "\<forall>h \<in> set kept. tokens_ok self h"
  shows "\<forall>h \<in> set kept'. tokens_ok self h"
proof (cases "filter (\<lambda>x. last_frame x = t) kept = []")
  case True
  with assms(1) have "kept' = filter (\<lambda>x. t < last_frame x) kept"
    by (simp add: maes_frame_def Let_def)
  then show ?thesis using assms(2) by simp
next
  case False
  let ?hyps = "filter (\<lambda>x. last_frame x = t) kept"
  from assms(1) False have e: "Option.bind (maes self) (\<lambda>options. Option.bind
          (if zero_duration_idx self \<noteq> None
           then prefix_search self nets t (maes_prefix_alpha options)
                  (sort_key (\<lambda>x. - int (length (y_sequence x))) ?hyps)
           else Some ?hyps)
          (\<lambda>hyps'. maes_steps self nets t (map y_sequence hyps') (maes_expansion_gamma options)
                (nat (maes_num_steps options))
                (hyps', [], [], filter (\<lambda>x. t < last_frame x) kept, w))) = Some (kept', w')"
    unfolding maes_frame_def Let_def prod.case by (simp only: if_False)
  from e obtain opts :: maes_options and hyps' where
    p: "(if zero_duration_idx self \<noteq> None
          then prefix_search self nets t (maes_prefix_alpha opts)
                 (sort_key (\<lambda>x. - int (length (y_sequence x))) ?hyps)
          else Some ?hyps) = Some hyps'"
    and s: "maes_steps self nets t (map y_sequence hyps') (maes_expansion_gamma opts)
              (nat (maes_num_steps opts)) (hyps', [], [], filter (\<lambda>x. t < last_frame x) kept, w)
            = Some (kept', w')"
    unfolding bind_eq_Some_conv by blast
  have "\<forall>h \<in> set hyps'. tokens_ok self h"
  proof (cases "zero_duration_idx self \<noteq> None")
    case True
    with p have "prefix_search self nets t (maes_prefix_alpha opts)
                 (sort_key (\<lambda>x. - int (length (y_sequence x))) ?hyps) = Some hyps'" by simp
    from prefix_search_ok[OF this] assms(2) show ?thesis by simp
  next
    case False
    with p assms(2) show ?thesis by auto
  qed
  then show ?thesis using maes_steps_ok[OF s] assms(2) by simp
qed

lemma maes_frames_ok:
  "maes_frames self nets ts state = Some (kept', w') \<Longrightarrow>
   \<forall>h \<in> set (fst state). tokens_ok self h \<Longrightarrow> \<forall>h \<in> set kept'. tokens_ok self h"
proof (induction ts arbitrary: state)
  case Nil
  then show ?case by auto
next
  case (Cons t ts)
  from Cons.prems(1) obtain mid where m: "maes_frame self nets t state = Some mid"
    "maes_frames self nets ts mid = Some (kept', w')"
    by (auto split: Option.bind_splits)
  have "\<forall>h \<in> set (fst mid). tokens_ok self h"
    using maes_frame_ok[of self nets t "fst state" "snd state" "fst mid" "snd mid"] m(1)
      Cons.prems(2) by simp
  from Cons.IH[OF m(2) this] show ?case .
qed

lemma maes_initial_ok: "\<forall>h \<in> set (fst (maes_initial self nets)). tokens_ok self h"
  by (simp add: maes_initial_def tokens_ok_start split: prod.splits)

lemma set_sort_nbest: "sort_nbest self hyps = Some out \<Longrightarrow> set out = set hyps"
  by (auto simp: sort_nbest_def sorted_by_score_desc_def split: if_splits)

lemma maes_search_ok:
  assumes "modified_adaptive_expansion_search self nets T = Some out"
  shows "\<forall>h \<in> set out. tokens_ok self h"
proof -
  from assms obtain kept w where
    f: "maes_frames self nets [0 ..< T] (maes_initial self nets) = Some (kept, w)"
    and s: "sort_nbest self kept = Some out"
    by (auto simp: modified_adaptive_expansion_search_def split: if_splits Option.bind_splits)
  from maes_frames_ok[OF f maes_initial_ok] set_sort_nbest[OF s] show ?thesis by simp
qed

lemma topk_idx_bound:
  assumes "topk k xs = Some (vs, idxs)" "i \<in> set idxs"
  shows "i < length xs"
proof -
  from assms(1) have "idxs = map snd (take (nat k) (sort_key (\<lambda>p. - fst p) (zip xs [0..<length xs])))"
    by (auto simp: topk_def Let_def split: if_splits)
  with assms(2) obtain a where "(a, i) \<in> set (zip xs [0..<length xs])"
    by (auto dest!: in_set_takeD)
  then have "i \<in> set [0..<length xs]" by (rule set_zip_rightD)
  then show ?thesis by simp
qed

lemma nonblank_child_ok:
  assumes c: "nonblank_child self L t max_hyp st bk idxs didxs pair = Some (d, h)"
    and ok: "tokens_ok self max_hyp"
    and nb: "\<forall>i \<in> set idxs. i \<noteq> blank self"
  shows "tokens_ok self h"
proof -
  from c obtain j where j: "j < length idxs" and y: "y_sequence h = y_sequence max_hyp @ [idxs ! j]"
    by (cases pair)
       (auto simp: nonblank_child_def Let_def nth_opt_def split: Option.bind_splits if_splits)
  from nb j have "idxs ! j \<noteq> blank self" using nth_mem by blast
  from tokens_ok_snoc[OF ok this y] show ?thesis .
qed

lemma blank_child_ok:
  assumes c: "blank_child self L max_hyp logp dlogp n d0 = Some hs"
    and ok: "tokens_ok self max_hyp"
  shows "\<forall>h \<in> set hs. tokens_ok self h"
proof
  fix h assume "h \<in> set hs"
  with c have "y_sequence h = y_sequence max_hyp"
    by (auto simp: blank_child_def Let_def split: if_splits Option.bind_splits)
  then show "tokens_ok self h" using ok tokens_ok_eq by blast
qed

lemma set_termination_check: "set (fst (termination_check b hyps kept)) \<subseteq> set kept"
  using set_py_take[of b "sorted_by_score_desc kept"]
  by (auto simp: termination_check_def Let_def sorted_by_score_def sorted_by_score_desc_def
           split: option.splits)

lemma default_iteration_ok:
  assumes it: "default_iteration self nets L t (hyps, kept, w) = Some ((hyps', kept', w'), brk)"
    and shape: "\<forall>t out. length (fst (joint_log_probs nets t out)) \<le> Suc (blank self)"
    and ok: "\<forall>h \<in> set hyps \<union> set kept. tokens_ok self h"
  shows "\<forall>h \<in> set hyps' \<union> set kept'. tokens_ok self h"
proof -
  from it obtain max_hyp dout logp dlogp bk lv li dst nb di zs children blanks b where
    m: "max_by score hyps = Some max_hyp"
    and j: "joint_log_probs nets t dout = (logp, dlogp)"
    and tk: "topk bk (butlast logp) = Some (lv, li)"
    and ch: "those (map (nonblank_child self L t max_hyp dst nb li di) zs) = Some children"
    and bl: "those (map (blank_child self L max_hyp logp dlogp (length di)) di) = Some blanks"
    and h': "hyps' = remove1 max_hyp hyps @ map snd (filter (\<lambda>c. fst c = 0) children)"
    and tc: "termination_check b
               (remove1 max_hyp hyps @ map snd (filter (\<lambda>c. fst c = 0) children))
               (remove_duplicate_hypotheses
                  (kept @ map snd (filter (\<lambda>c. 0 < fst c) children) @ concat blanks))
             = (kept', brk)"
    unfolding default_iteration_def default_expand_def
    by (auto simp: Let_def split: Option.bind_splits prod.splits)
  from tc have k': "kept' = fst (termination_check b hyps'
               (remove_duplicate_hypotheses
                  ((kept @ map snd (filter (\<lambda>c. fst c \<noteq> 0) children)) @ concat blanks)))"
    unfolding h' by simp
  from m have "max_hyp \<in> set hyps" using max_by_Some[of hyps score] by (cases hyps) auto
  with ok have mok: "tokens_ok self max_hyp" by blast
  have "length logp \<le> Suc (blank self)" using shape[rule_format, of t dout] j by simp
  then have nbl: "\<forall>i \<in> set li. i \<noteq> blank self"
    using topk_idx_bound[OF tk] by fastforce
  have cok: "\<forall>c \<in> set children. tokens_ok self (snd c)"
  proof
    fix c assume "c \<in> set children"
    from those_Some_set[OF ch this] obtain z where
      "nonblank_child self L t max_hyp dst nb li di z = Some (fst c, snd c)" by auto
    from nonblank_child_ok[OF this mok nbl] show "tokens_ok self (snd c)" .
  qed
  have bok: "\<forall>h \<in> set (concat blanks). tokens_ok self h"
  proof
    fix h assume "h \<in> set (concat blanks)"
    then obtain hs where hs: "hs \<in> set blanks" "h \<in> set hs" by auto
    from those_Some_set[OF bl hs(1)] obtain d0 where
      "blank_child self L max_hyp logp dlogp (length di) d0 = Some hs" by auto
    from blank_child_ok[OF this mok] hs(2) show "tokens_ok self h" by blast
  qed
  have hok: "\<forall>h \<in> set hyps'. tokens_ok self h"
  proof
    fix h assume "h \<in> set hyps'"
    then have "h \<in> set (remove1 max_hyp hyps) \<or> (\<exists>c \<in> set children. h = snd c)"
      unfolding h' by auto
    then show "tokens_ok self h" using ok cok set_remove1_subset[of max_hyp hyps] by blast
  qed
  have kok: "\<forall>h \<in> set kept'. tokens_ok self h"
  proof
    fix h assume "h \<in> set kept'"
    then have "h \<in> set ((kept @ map snd (filter (\<lambda>c. fst c \<noteq> 0) children)) @ concat blanks)"
      unfolding k' using set_termination_check set_remove_duplicate_hypotheses by blast
    then have "h \<in> set kept \<or> (\<exists>c \<in> set children. h = snd c) \<or> h \<in> set (concat blanks)"
      by auto
    then show "tokens_ok self h" using ok cok bok by blast
  qed
  from hok kok show ?thesis by blast
qed

lemma default_while_ok:
  assumes wh: "default_while self nets L t state = Some y"
  shows "(\<forall>t out. length (fst (joint_log_probs nets t out)) \<le> Suc (blank self)) \<longrightarrow>
   (\<forall>h \<in> set (fst state) \<union> set (fst (snd state)). tokens_ok self h) \<longrightarrow>
   (\<forall>h \<in> set (fst y) \<union> set (fst (snd y)). tokens_ok self h)"
proof -
  let ?P = "\<lambda>(self :: decoder) (nets :: ('a, 'b, 'c, 'd) networks) (L :: nat) (t :: nat)
      (state :: ('a, 'b, 'c) hypothesis list \<times> ('a, 'b, 'c) hypothesis list \<times> 'd)
      (y :: ('a, 'b, 'c) hypothesis list \<times> ('a, 'b, 'c) hypothesis list \<times> 'd).
    (\<forall>t out. length (fst (joint_log_probs nets t out)) \<le> Suc (blank self)) \<longrightarrow>
    (\<forall>h \<in> set (fst state) \<union> set (fst (snd state)). tokens_ok self h) \<longrightarrow>
    (\<forall>h \<in> set (fst y) \<union> set (fst (snd y)). tokens_ok self h)"
  have "?P self nets L t state y"
  proof (rule default_while.raw_induct[where P = ?P, OF _ wh])
    fix dw self nets L t state y
    assume IH: "\<And>self nets L t state y. dw self nets L t state = Some y \<Longrightarrow> ?P self nets L t state y"
      and step: "(if fst state = [] then Some state
                  else Option.bind (default_iteration self nets L t state)
                         (\<lambda>r. if snd r then Some (fst r) else dw self nets L t (fst r)))
                 = Some y"
    show "?P self nets L t state y"
    proof (intro impI)
      assume shape: "\<forall>t out. length (fst (joint_log_probs nets t out)) \<le> Suc (blank self)"
        and ok: "\<forall>h \<in> set (fst state) \<union> set (fst (snd state)). tokens_ok self h"
      show "\<forall>h \<in> set (fst y) \<union> set (fst (snd y)). tokens_ok self h"
      proof (cases "fst state = []")
        case True
        with step have "y = state" by simp
        with ok show ?thesis by simp
      next
        case False
        with step obtain r where
          it: "default_iteration self nets L t state = Some r"
          and rest: "(if snd r then Some (fst r) else dw self nets L t (fst r)) = Some y"
          by (auto simp: bind_eq_Some_conv)
        have it': "default_iteration self nets L t (fst state, fst (snd state), snd (snd state))
                   = Some ((fst (fst r), fst (snd (fst r)), snd (snd (fst r))), snd r)"
          using it by simp
        note rok = default_iteration_ok[OF it' shape ok]
        show ?thesis
        proof (cases "snd r")
          case True
          with rest have "y = fst r" by simp
          with rok show ?thesis by simp
        next
          case False
          with rest have "dw self nets L t (fst r) = Some y" by simp
          from IH[OF this] shape rok show ?thesis by blast
        qed
      qed
    qed
  qed
  then show ?thesis .
qed

lemma default_while_kept_ok:
  assumes wh: "default_while self nets L t (hyps, kept, w) = Some y"
    and shape: "\<forall>t out. length (fst (joint_log_probs nets t out)) \<le> Suc (blank self)"
    and ok: "\<forall>h \<in> set hyps. tokens_ok self h" "\<forall>h \<in> set kept. tokens_ok self h"
  shows "\<forall>h \<in> set (fst (snd y)). tokens_ok self h"
proof -
  have "\<forall>h \<in> set (fst (hyps, kept, w)) \<union> set (fst (snd (hyps, kept, w))). tokens_ok self h"
    using ok by auto
  with default_while_ok[OF wh] shape show ?thesis by blast
qed

lemma default_frame_ok:
  assumes f: "default_frame self nets L t (kept, w) = Some (kept', w')"
    and shape: "\<forall>t out. length (fst (joint_log_probs nets t out)) \<le> Suc (blank self)"
    and ok: "\<forall>h \<in> set kept. tokens_ok self h"
  shows "\<forall>h \<in> set kept'. tokens_ok self h"
proof -
  from f obtain y where
    wh: "default_while self nets L t
           (filter (\<lambda>hyp. last_frame hyp = t) kept, filter (\<lambda>hyp. t < last_frame hyp) kept, w)
         = Some y"
    and k: "kept' = fst (snd y)"
    by (auto simp: default_frame_def Let_def)
  have "\<forall>h \<in> set (filter (\<lambda>hyp. last_frame hyp = t) kept). tokens_ok self h"
    "\<forall>h \<in> set (filter (\<lambda>hyp. t < last_frame hyp) kept). tokens_ok self h"
    using ok by auto
  from default_while_kept_ok[OF wh shape this] show ?thesis unfolding k .
qed

lemma default_frames_ok:
  "default_frames self nets L ts state = Some (kept', w') \<Longrightarrow>
   \<forall>t out. length (fst (joint_log_probs nets t out)) \<le> Suc (blank self) \<Longrightarrow>
   \<forall>h \<in> set (fst state). tokens_ok self h \<Longrightarrow> \<forall>h \<in> set kept'. tokens_ok self h"
proof (induction ts arbitrary: state)
  case Nil
  then show ?case by auto
next
  case (Cons t ts)
  from Cons.prems(1) obtain mid where m: "default_frame self nets L t state = Some mid"
    "default_frames self nets L ts mid = Some (kept', w')"
    by (auto simp: bind_eq_Some_conv)
  have "\<forall>h \<in> set (fst mid). tokens_ok self h"
    using default_frame_ok[of self nets L t "fst state" "snd state" "fst mid" "snd mid"] m(1)
      Cons.prems(2,3) by simp
  from Cons.IH[OF m(2) Cons.prems(2) this] show ?case .
qed

lemma default_search_ok:
  assumes "default_beam_search self nets T = Some out"
    and shape: "\<forall>t out. length (fst (joint_log_probs nets t out)) \<le> Suc (blank self)"
  shows "\<forall>h \<in> set out. tokens_ok self h"
proof -
  from assms(1) obtain kept w where
    f: "default_frames self nets T [0 ..< T]
          ([start_hyp self (initialize_state nets) [] None], fresh_cache nets) = Some (kept, w)"
    and s: "sort_nbest self kept = Some out"
    by (auto simp: default_beam_search_def bind_eq_Some_conv)
  have "\<forall>h \<in> set (fst ([start_hyp self (initialize_state nets) [] None], fresh_cache nets)).
          tokens_ok self h"
    by (simp add: tokens_ok_start)
  from default_frames_ok[OF f shape this] set_sort_nbest[OF s] show ?thesis by simp
qed

lemma ex_blank_first_init: "init ex_env ex_blank_first_args = Inr ex_blank_first_self"
  by (simp add: init_defs ex_blank_first_args_def ex_blank_first_self_def)

lemmas ex_blank_first_defs = default_iteration_def default_expand_def ex_blank_first_self_def
  ex_blank_first_nets_def start_hyp_def topk_def
  cartesian_sums_def nonblank_child_def blank_child_def nth_opt_def termination_check_def
  remove_duplicate_hypotheses_def sorted_by_score_desc_def sorted_by_score_def
  keep_if_new_def same_key_def py_take_def

lemma ex_blank_first_iteration:
  "default_iteration ex_blank_first_self ex_blank_first_nets 1 0
     ([start_hyp ex_blank_first_self () [] None], [], ()) =
   Some
    (([],
      [\<lparr>score = - (1 / 5), y_sequence = [0, 0], dec_state = (), dec_out = [],
        timestep = [- 1, 1], length_frames = 1, last_frame = 1, ngram_lm_state = None :: unit option\<rparr>,
       \<lparr>score = - (1 / 5), y_sequence = [0], dec_state = (), dec_out = [],
        timestep = [- 1], length_frames = 1, last_frame = 1, ngram_lm_state = None\<rparr>],
      ()),
     False)"
  by (simp add: ex_blank_first_defs)

lemma ex_blank_first_frame:
  "default_frame ex_blank_first_self ex_blank_first_nets 1 0
     ([start_hyp ex_blank_first_self () [] None], ()) =
   Some
     ([\<lparr>score = - (1 / 5), y_sequence = [0, 0], dec_state = (), dec_out = [],
        timestep = [- 1, 1], length_frames = 1, last_frame = 1, ngram_lm_state = None :: unit option\<rparr>,
       \<lparr>score = - (1 / 5), y_sequence = [0], dec_state = (), dec_out = [],
        timestep = [- 1], length_frames = 1, last_frame = 1, ngram_lm_state = None\<rparr>],
      ())"
proof -
  have f: "filter (\<lambda>hyp. last_frame hyp = 0) [start_hyp ex_blank_first_self () [] None]
             = [start_hyp ex_blank_first_self () [] None]"
    "filter (\<lambda>hyp. 0 < last_frame hyp) [start_hyp ex_blank_first_self () [] None] = []"
    by (simp_all add: start_hyp_def)
  have nonempty:
    "fst ([start_hyp ex_blank_first_self () [] None],
          [] :: (unit, unit, unit) hypothesis list, ()) \<noteq> []"
    by simp
  show ?thesis
    unfolding default_frame_def
    apply (simp only: prod.case Let_def f)
    apply (subst default_while.simps)
    apply (simp only: nonempty if_False ex_blank_first_iteration Option.bind.simps snd_conv
        fst_conv)
    apply (subst default_while.simps)
    apply simp
    done
qed

text \<open>
  Claim C8, as stated, fails for the default search. The top-k of the tokens is taken
  over all positions but the last one, \<^verbatim>\<open>logp[:-1]\<close>, whatever the blank id is. For
  the decoder \<^const>\<open>ex_blank_first_self\<close>, whose blank id is 0, the candidates are the
  blank and token 1; under \<^const>\<open>ex_blank_first_nets\<close> the blank is the better one, and
  the search over one frame returns a hypothesis with the tokens \<open>[0, 0]\<close>.
\<close>

theorem tokens_ok_counterexample:
  "init ex_env ex_blank_first_args = Inr ex_blank_first_self
   \<and> default_beam_search ex_blank_first_self ex_blank_first_nets 1 =
     Some
       [\<lparr>score = - (1 / 5), y_sequence = [0, 0], dec_state = (), dec_out = [],
        timestep = [- 1, 1], length_frames = 1, last_frame = 1, ngram_lm_state = None :: unit option\<rparr>,
        \<lparr>score = - (1 / 5), y_sequence = [0], dec_state = (), dec_out = [],
        timestep = [- 1], length_frames = 1, last_frame = 1, ngram_lm_state = None\<rparr>]
   \<and> \<not> tokens_ok ex_blank_first_self
       \<lparr>score = - (1 / 5), y_sequence = [0, 0], dec_state = (), dec_out = [],
        timestep = [- 1, 1], length_frames = 1, last_frame = 1, ngram_lm_state = None :: unit option\<rparr>"
proof -
  have n: "initialize_state ex_blank_first_nets = ()" "fresh_cache ex_blank_first_nets = ()"
    by (simp_all add: ex_blank_first_nets_def)
  have u: "[0 ..< (1::nat)] = [0]" by simp
  have s: "default_beam_search ex_blank_first_self ex_blank_first_nets 1 =
     Some
       [\<lparr>score = - (1 / 5), y_sequence = [0, 0], dec_state = (), dec_out = [],
        timestep = [- 1, 1], length_frames = 1, last_frame = 1, ngram_lm_state = None :: unit option\<rparr>,
        \<lparr>score = - (1 / 5), y_sequence = [0], dec_state = (), dec_out = [],
        timestep = [- 1], length_frames = 1, last_frame = 1, ngram_lm_state = None\<rparr>]"
    unfolding default_beam_search_def n u
    apply (simp only: default_frames.simps ex_blank_first_frame Option.bind.simps prod.case)
    apply (simp add: sort_nbest_def ex_blank_first_self_def sorted_by_score_desc_def)
    done
  have t: "\<not> tokens_ok ex_blank_first_self
       \<lparr>score = - (1 / 5), y_sequence = [0, 0], dec_state = (), dec_out = [],
        timestep = [- 1, 1], length_frames = 1, last_frame = 1, ngram_lm_state = None :: unit option\<rparr>"
    by (simp add: tokens_ok_def ex_blank_first_self_def)
  from ex_blank_first_init s t show ?thesis by blast
qed

text \<open>
  Claim C8, amended. Every hypothesis that the mAES search returns starts with the
  blank and has no blank after position 0. The same holds of every hypothesis that
  the default search returns when the blank id is not below the last position of the
  token log-probabilities of the joint, as it is when the blank is the last token.
\<close>

theorem tokens_after_start_non_blank:
  "(default_beam_search self nets encoded_lengths = Some nbest
      \<and> (\<forall>time_idx decoder_output.
            length (fst (joint_log_probs nets time_idx decoder_output)) \<le> Suc (blank self))
      \<longrightarrow> (\<forall>h \<in> set nbest. tokens_ok self h))
   \<and> (modified_adaptive_expansion_search self nets encoded_lengths = Some nbest'
      \<longrightarrow> (\<forall>h \<in> set nbest'. tokens_ok self h))"
  using default_search_ok[of self nets encoded_lengths nbest]
    maes_search_ok[of self nets encoded_lengths nbest']
  by blast

theorem tokens_after_start_non_blank_witness:
  "default_beam_search ex_self ex_nets 1 \<noteq> None
   \<and> modified_adaptive_expansion_search ex_maes_self ex_nets 1 \<noteq> None
   \<and> map (tokens_ok ex_self) (the (default_beam_search ex_self ex_nets 1))
     = [True, True, True, True]
   \<and> map (tokens_ok ex_maes_self) (the (modified_adaptive_expansion_search ex_maes_self ex_nets 1))
     = [True, True]"
proof -
  have shape: "\<forall>time_idx decoder_output.
      length (fst (joint_log_probs ex_nets time_idx decoder_output)) \<le> Suc (blank ex_self)"
    by (simp add: ex_nets_def ex_self_def)
  note A = tokens_after_start_non_blank
             [of ex_self ex_nets 1 _ _, THEN conjunct1, rule_format,
              OF conjI[OF ex_default_search_1 shape]]
  note B = tokens_after_start_non_blank
             [of ex_maes_self ex_nets 1 _ _, THEN conjunct2, rule_format, OF ex_maes_search_1]
  show ?thesis
    unfolding ex_default_search_1 ex_maes_search_1 option.sel
    using A B by simp
qed

end
